theory Spec2Isabelle
  imports Complex_Main
begin

unbundle bit_operations_syntax

section \<open>The encoder pipeline of parse\_encoder\_data.py\<close>

text \<open>
  The pipeline of \<^verbatim>\<open>main\<close> works on one pandas DataFrame, to which every stage adds
  columns. A DataFrame is modelled as the list of its rows, in order; a row carries its
  index label (\<^verbatim>\<open>read_csv\<close> gives the labels 0, 1, 2, ..., and filtering keeps
  them). Each stage has the row type of the columns it finds and the row type of the
  columns it leaves, one record extending the other. Python's ints are modelled as the
  integers. The timestamps, which come from the capture file, and what is computed
  from them are floats with their infinities and NaN (\<open>pyfloat\<close>); the angles, which
  the pipeline builds from 0.0 by adding and subtracting the step, are modelled as
  reals. An exception is a value \<open>Inl e\<close>.
  The attributes the functions keep on themselves and the messages they print are the
  fields of the record \<open>world\<close>, passed through the stages.
\<close>

subsection \<open>Floats\<close>

text \<open>A float of the capture is a finite number, an infinity or NaN: \<^verbatim>\<open>astype(float)\<close>
  parses \<^verbatim>\<open>1e309\<close> to \<^verbatim>\<open>inf\<close> and \<^verbatim>\<open>nan\<close> to NaN, and neither raises.
  Subtraction and division follow IEEE 754 on the infinities and NaN; on finite numbers
  they are exact here (no rounding, no overflow). \<^verbatim>\<open>x != y\<close> is true when either
  side is NaN.\<close>

datatype pyfloat = Finite real | PosInf | NegInf | NaN

fun fsub :: "pyfloat \<Rightarrow> pyfloat \<Rightarrow> pyfloat" where
  "fsub NaN y = NaN"
| "fsub x NaN = NaN"
| "fsub (Finite x) (Finite y) = Finite (x - y)"
| "fsub (Finite x) PosInf = NegInf"
| "fsub (Finite x) NegInf = PosInf"
| "fsub PosInf PosInf = NaN"
| "fsub PosInf y = PosInf"
| "fsub NegInf NegInf = NaN"
| "fsub NegInf y = NegInf"

definition float_ne :: "pyfloat \<Rightarrow> pyfloat \<Rightarrow> bool" where
  "float_ne x y = (x = NaN \<or> y = NaN \<or> x \<noteq> y)"

subsection \<open>Rows\<close>

record capture_row =
  idx :: nat
  timestamp :: pyfloat
  chan_a :: int
  chan_b :: int

record origin_row = capture_row +
  matches_initial_position :: int

record normalized_row = origin_row +
  timestamp_normalized_s :: pyfloat

record bitmask_row = normalized_row +
  current_position_bitmask :: string
  previous_position_bitmask :: string

record change_row = bitmask_row +
  change_occurred :: int

record direction_row = change_row +
  direction :: string

record angle_row = direction_row +
  angle_deg :: real

record velocity_row = angle_row +
  velocity_deg_per_s :: pyfloat

subsection \<open>Errors, printed messages and the functions' attributes\<close>

datatype error =
    KeyError
  | NotInList string
  | UndefinedBitmask string
  | IllegalChange string pyfloat
  | ZeroDivisionError

datatype message =
    InitialPositions int int
  | FirstChange nat real
  | WtfAreWeHere

record world =
  current_direction :: string
  last_direction :: "string option"
  current_angle :: real
  stdout :: "message list"

subsection \<open>pandas and Python helpers\<close>

text \<open>\<^verbatim>\<open>df.at[0, col]\<close>: the row labelled 0, a KeyError when there is none.\<close>

definition at_0 :: "('a capture_row_scheme) list \<Rightarrow> error + 'a capture_row_scheme" where
  "at_0 df = (case find (\<lambda>r. idx r = 0) df of None \<Rightarrow> Inl KeyError | Some r \<Rightarrow> Inr r)"

text \<open>\<^verbatim>\<open>Series.shift(fill_value=v)\<close>: every value moves one position down, the first
  position gets \<open>v\<close>, the last value is dropped.\<close>

definition shift :: "'a \<Rightarrow> 'a list \<Rightarrow> 'a list" where
  "shift fill_value xs = take (length xs) (fill_value # xs)"

text \<open>\<^verbatim>\<open>Series.idxmax()\<close> of a boolean column that is not empty: the label of the first
  True, and the first label when no entry is True.\<close>

definition idxmax :: "(nat \<times> bool) list \<Rightarrow> nat" where
  "idxmax col = (case find snd col of Some (l, _) \<Rightarrow> l | None \<Rightarrow> fst (hd col))"

text \<open>\<^verbatim>\<open>list.index(x)\<close>: the first position of \<open>x\<close>, a ValueError when it is absent.\<close>

fun index_from :: "nat \<Rightarrow> 'a list \<Rightarrow> 'a \<Rightarrow> nat option" where
  "index_from n [] x = None"
| "index_from n (y # ys) x = (if y = x then Some n else index_from (Suc n) ys x)"

definition list_index :: "string list \<Rightarrow> string \<Rightarrow> error + nat" where
  "list_index xs x = (case index_from 0 xs x of None \<Rightarrow> Inl (NotInList x) | Some i \<Rightarrow> Inr i)"

text \<open>\<^verbatim>\<open>bin(n)\<close>, \<^verbatim>\<open>s.replace("0b", "")\<close> and \<^verbatim>\<open>s.zfill(width)\<close>.\<close>

fun bin_digits :: "nat \<Rightarrow> string" where
  "bin_digits n =
     (if n < 2 then [if n = 0 then CHR ''0'' else CHR ''1'']
      else bin_digits (n div 2) @ [if n mod 2 = 0 then CHR ''0'' else CHR ''1''])"

definition py_bin :: "int \<Rightarrow> string" where
  "py_bin n = (if n < 0 then ''-0b'' @ bin_digits (nat (- n)) else ''0b'' @ bin_digits (nat n))"

fun replace_0b :: "string \<Rightarrow> string" where
  "replace_0b (x # y # rest) =
     (if x = CHR ''0'' \<and> y = CHR ''b'' then replace_0b rest else x # replace_0b (y # rest))"
| "replace_0b s = s"

definition zfill :: "nat \<Rightarrow> string \<Rightarrow> string" where
  "zfill width s =
     (if width \<le> length s then s
      else (case s of
              [] \<Rightarrow> replicate width CHR ''0''
            | c # rest \<Rightarrow>
                if c = CHR ''+'' \<or> c = CHR ''-''
                then c # replicate (width - length s) CHR ''0'' @ rest
                else replicate (width - length s) CHR ''0'' @ s))"

text \<open>Python's \<^verbatim>\<open>/\<close> on floats: a zero divisor raises, whatever the dividend.\<close>

fun truediv :: "pyfloat \<Rightarrow> pyfloat \<Rightarrow> error + pyfloat" where
  "truediv x (Finite y) =
     (if y = 0 then Inl ZeroDivisionError
      else Inr (case x of
                  Finite a \<Rightarrow> Finite (a / y)
                | PosInf \<Rightarrow> (if 0 < y then PosInf else NegInf)
                | NegInf \<Rightarrow> (if 0 < y then NegInf else PosInf)
                | NaN \<Rightarrow> NaN))"
| "truediv x NaN = Inr NaN"
| "truediv (Finite a) y = Inr (Finite 0)"
| "truediv x y = Inr NaN"

subsection \<open>Constants\<close>

definition ENCODER_RESOLUTION :: real where
  "ENCODER_RESOLUTION = 2048"

definition ENCODER_POSITION_STEP_SIZE_DEG :: real where
  "ENCODER_POSITION_STEP_SIZE_DEG = 360 / ENCODER_RESOLUTION"

definition bitmask_cw_pattern :: "string list" where
  "bitmask_cw_pattern = [''00'', ''01'', ''11'', ''10'']"

subsection \<open>Loading\<close>

text \<open>The frame \<^verbatim>\<open>read_csv\<close> builds from the capture's samples (timestamp, channel A,
  channel B): a RangeIndex labels the rows 0, 1, 2, ...\<close>

fun read_csv_from :: "nat \<Rightarrow> (pyfloat \<times> int \<times> int) list \<Rightarrow> capture_row list" where
  "read_csv_from n [] = []"
| "read_csv_from n ((t, a, b) # rest) =
     \<lparr>idx = n, timestamp = t, chan_a = a, chan_b = b\<rparr> # read_csv_from (Suc n) rest"

definition read_csv :: "(pyfloat \<times> int \<times> int) list \<Rightarrow> capture_row list" where
  "read_csv samples = read_csv_from 0 samples"

subsection \<open>detect\_initial\_stable\_angular\_position\<close>

text \<open>The column \<^verbatim>\<open>change_occurred\<close> this function computes is dropped before it returns
  and nothing reads it; the model leaves it out.\<close>

definition detect_initial_stable_angular_position ::
  "world \<Rightarrow> capture_row list \<Rightarrow> real \<Rightarrow> world \<times> (error + origin_row list)" where
  "detect_initial_stable_angular_position w df period_s =
     (case at_0 df of
        Inl e \<Rightarrow> (w, Inl e)
      | Inr r0 \<Rightarrow>
          (let initial_position_chan_a = chan_a r0;
               initial_position_chan_b = chan_b r0;
               df' = map (\<lambda>r. capture_row.extend r
                       (origin_row.fields
                          (if chan_a r = initial_position_chan_a \<and> chan_b r = initial_position_chan_b
                           then 1 else 0))) df;
               i = idxmax (map (\<lambda>r. (idx r, matches_initial_position r < 1)) df')
           in (w\<lparr>stdout := stdout w @
                   [InitialPositions initial_position_chan_a initial_position_chan_b,
                    FirstChange i (real i * period_s)]\<rparr>,
               Inr df')))"

subsection \<open>normalize\_timestamps\<close>

definition normalize_timestamps :: "origin_row list \<Rightarrow> real \<Rightarrow> error + normalized_row list" where
  "normalize_timestamps df period_s =
     (case at_0 df of
        Inl e \<Rightarrow> Inl e
      | Inr r0 \<Rightarrow>
          (let initial_timestamp_s = timestamp r0
           in Inr (map (\<lambda>r. origin_row.extend r
                        (normalized_row.fields (fsub (timestamp r) initial_timestamp_s))) df)))"

subsection \<open>generate\_encoder\_position\_bitmask\<close>

definition bitmask :: "int \<Rightarrow> int \<Rightarrow> string" where
  "bitmask a b = zfill 2 (replace_0b (py_bin (push_bit 1 a OR b)))"

definition generate_encoder_position_bitmask :: "normalized_row list \<Rightarrow> error + bitmask_row list" where
  "generate_encoder_position_bitmask df =
     (case at_0 df of
        Inl e \<Rightarrow> Inl e
      | Inr r0 \<Rightarrow>
          (let shifted_A = shift (chan_a r0) (map chan_a df);
               shifted_B = shift (chan_b r0) (map chan_b df)
           in Inr (map (\<lambda>(r, sa, sb). normalized_row.extend r
                        (bitmask_row.fields (bitmask (chan_a r) (chan_b r)) (bitmask sa sb)))
                     (zip df (zip shifted_A shifted_B)))))"

subsection \<open>detect\_direction\_of\_motion\<close>

text \<open>\<^verbatim>\<open>check_direction\<close>, applied to one row: the two \<^verbatim>\<open>index\<close> calls come first,
  then the branch on \<^verbatim>\<open>change_occurred\<close>. A raise leaves the attribute as it was.\<close>

definition check_direction :: "world \<Rightarrow> change_row \<Rightarrow> world \<times> (error + string)" where
  "check_direction w index =
     (let current_bitmask = current_position_bitmask index;
          previous_bitmask = previous_position_bitmask index
      in case list_index bitmask_cw_pattern current_bitmask of
           Inl e \<Rightarrow> (w, Inl e)
         | Inr current_bitmask_index \<Rightarrow>
      (case list_index bitmask_cw_pattern previous_bitmask of
           Inl e \<Rightarrow> (w, Inl e)
         | Inr previous_bitmask_index \<Rightarrow>
      (if change_occurred index = 0
       then (w\<lparr>current_direction := ''''\<rparr>, Inr '''')
       else if current_bitmask \<notin> set bitmask_cw_pattern
       then (w, Inl (UndefinedBitmask current_bitmask))
       else
         (let cw_step = bitmask_cw_pattern !
                (nat ((int previous_bitmask_index + 1) mod int (length bitmask_cw_pattern)));
              ccw_step = bitmask_cw_pattern !
                (nat ((int previous_bitmask_index - 1) mod int (length bitmask_cw_pattern)))
          in if current_bitmask = cw_step
             then (w\<lparr>current_direction := ''CW''\<rparr>, Inr ''CW'')
             else if current_bitmask = ccw_step
             then (w\<lparr>current_direction := ''CCW''\<rparr>, Inr ''CCW'')
             else (w, Inl (IllegalChange current_bitmask (timestamp_normalized_s index)))))))"

text \<open>\<^verbatim>\<open>df.apply(check_direction, axis=1)\<close>: the rows in order, stopping at the first raise.\<close>

fun apply_check_direction :: "world \<Rightarrow> change_row list \<Rightarrow> world \<times> (error + string list)" where
  "apply_check_direction w [] = (w, Inr [])"
| "apply_check_direction w (r # rs) =
     (case check_direction w r of
        (w', Inl e) \<Rightarrow> (w', Inl e)
      | (w', Inr d) \<Rightarrow>
          (case apply_check_direction w' rs of
             (w'', Inl e) \<Rightarrow> (w'', Inl e)
           | (w'', Inr ds) \<Rightarrow> (w'', Inr (d # ds))))"

definition detect_direction_of_motion ::
  "world \<Rightarrow> bitmask_row list \<Rightarrow> world \<times> (error + direction_row list)" where
  "detect_direction_of_motion w df =
     (let w0 = w\<lparr>current_direction := ''''\<rparr>;
          df' = map (\<lambda>r. bitmask_row.extend r
                  (change_row.fields
                     (if current_position_bitmask r = previous_position_bitmask r then 0 else 1))) df
      in case apply_check_direction w0 df' of
           (w', Inl e) \<Rightarrow> (w', Inl e)
         | (w', Inr ds) \<Rightarrow>
             (w', Inr (map (\<lambda>(r, d). change_row.extend r (direction_row.fields d)) (zip df' ds))))"

subsection \<open>detect\_change\_in\_angular\_position\<close>

text \<open>The step size is the module's constant \<open>ENCODER_POSITION_STEP_SIZE_DEG\<close>; the
  functions below take it as the argument \<open>step\<close>, and \<open>main_pipeline\<close> passes the constant.\<close>

definition track_angular_change :: "real \<Rightarrow> world \<Rightarrow> direction_row \<Rightarrow> world \<times> real" where
  "track_angular_change step w index =
     (let w' =
        (if change_occurred index = 0 then w
         else if direction index = ''CW''
         then w\<lparr>current_angle := current_angle w + step, last_direction := Some ''CW''\<rparr>
         else if direction index = ''CCW''
         then w\<lparr>current_angle := current_angle w - step, last_direction := Some ''CCW''\<rparr>
         else if last_direction w = Some ''CW''
         then w\<lparr>current_angle := current_angle w + step\<rparr>
         else if last_direction w = Some ''CCW''
         then w\<lparr>current_angle := current_angle w - step\<rparr>
         else w\<lparr>stdout := stdout w @ [WtfAreWeHere]\<rparr>)
      in (w', current_angle w'))"

fun apply_track_angular_change :: "real \<Rightarrow> world \<Rightarrow> direction_row list \<Rightarrow> world \<times> real list" where
  "apply_track_angular_change step w [] = (w, [])"
| "apply_track_angular_change step w (r # rs) =
     (case track_angular_change step w r of
        (w', a) \<Rightarrow>
          (case apply_track_angular_change step w' rs of
             (w'', as) \<Rightarrow> (w'', a # as)))"

definition detect_change_in_angular_position ::
  "real \<Rightarrow> world \<Rightarrow> direction_row list \<Rightarrow> world \<times> angle_row list" where
  "detect_change_in_angular_position step w df =
     (let w0 = w\<lparr>last_direction := None, current_angle := 0\<rparr>
      in case apply_track_angular_change step w0 df of
           (w', as) \<Rightarrow>
             (w'\<lparr>current_angle := 0, last_direction := None\<rparr>,
              map (\<lambda>(r, a). direction_row.extend r (angle_row.fields a)) (zip df as)))"

subsection \<open>trim\_redundant\_data\_points\<close>

definition trim_redundant_data_points :: "angle_row list \<Rightarrow> angle_row list" where
  "trim_redundant_data_points df = filter (\<lambda>r. change_occurred r = 0) df"

subsection \<open>detect\_angular\_velocity\<close>

definition track_angular_velocity :: "real \<Rightarrow> real \<Rightarrow> pyfloat \<Rightarrow> pyfloat \<Rightarrow> error + pyfloat" where
  "track_angular_velocity angle previous_angle_deg ts previous_timestamp_normalized_s =
     (let angular_velocity = Finite 0;
          delta_theta = angle - previous_angle_deg;
          delta_t = fsub ts previous_timestamp_normalized_s
      in if float_ne delta_t (Finite 0) then truediv (Finite delta_theta) delta_t
         else Inr angular_velocity)"

fun apply_track_angular_velocity ::
  "(angle_row \<times> real \<times> pyfloat) list \<Rightarrow> error + pyfloat list" where
  "apply_track_angular_velocity [] = Inr []"
| "apply_track_angular_velocity ((r, pa, pt) # rest) =
     (case track_angular_velocity (angle_deg r) pa (timestamp_normalized_s r) pt of
        Inl e \<Rightarrow> Inl e
      | Inr v \<Rightarrow>
          (case apply_track_angular_velocity rest of
             Inl e \<Rightarrow> Inl e
           | Inr vs \<Rightarrow> Inr (v # vs)))"

definition detect_angular_velocity :: "angle_row list \<Rightarrow> error + velocity_row list" where
  "detect_angular_velocity df =
     (case at_0 df of
        Inl e \<Rightarrow> Inl e
      | Inr r0 \<Rightarrow>
          (let previous_angle_deg = shift (angle_deg r0) (map angle_deg df);
               previous_timestamp_normalized_s =
                 shift (timestamp_normalized_s r0) (map timestamp_normalized_s df)
           in case apply_track_angular_velocity
                     (zip df (zip previous_angle_deg previous_timestamp_normalized_s)) of
                Inl e \<Rightarrow> Inl e
              | Inr vs \<Rightarrow>
                  Inr (map (\<lambda>(r, v). angle_row.extend r (velocity_row.fields v)) (zip df vs))))"

subsection \<open>The pipeline of main\<close>

text \<open>The stages of \<^verbatim>\<open>main\<close> in its order: \<open>annotate\<close> runs the stable-origin
  detector and then the stages up to the integrator (\<open>annotate_from_origin\<close>), giving the
  annotated frame; \<open>pipeline\<close> trims it and adds the velocity, giving the frame
  \<^verbatim>\<open>main\<close> writes out. A raise in a stage ends the run.\<close>

definition annotate_from_origin ::
  "real \<Rightarrow> world \<Rightarrow> origin_row list \<Rightarrow> real \<Rightarrow> world \<times> (error + angle_row list)" where
  "annotate_from_origin step w1 df1 period_s =
     (case normalize_timestamps df1 period_s of
        Inl e \<Rightarrow> (w1, Inl e)
      | Inr df2 \<Rightarrow>
     (case generate_encoder_position_bitmask df2 of
        Inl e \<Rightarrow> (w1, Inl e)
      | Inr df3 \<Rightarrow>
     (case detect_direction_of_motion w1 df3 of
        (w2, Inl e) \<Rightarrow> (w2, Inl e)
      | (w2, Inr df4) \<Rightarrow>
     (case detect_change_in_angular_position step w2 df4 of
        (w3, df5) \<Rightarrow> (w3, Inr df5)))))"

definition annotate ::
  "real \<Rightarrow> world \<Rightarrow> capture_row list \<Rightarrow> real \<Rightarrow> world \<times> (error + angle_row list)" where
  "annotate step w df period_s =
     (case detect_initial_stable_angular_position w df period_s of
        (w1, Inl e) \<Rightarrow> (w1, Inl e)
      | (w1, Inr df1) \<Rightarrow> annotate_from_origin step w1 df1 period_s)"

definition pipeline ::
  "real \<Rightarrow> world \<Rightarrow> capture_row list \<Rightarrow> real \<Rightarrow> world \<times> (error + velocity_row list)" where
  "pipeline step w df period_s =
     (case annotate step w df period_s of
        (w', Inl e) \<Rightarrow> (w', Inl e)
      | (w', Inr df5) \<Rightarrow> (w', detect_angular_velocity (trim_redundant_data_points df5)))"

definition main_pipeline ::
  "world \<Rightarrow> (pyfloat \<times> int \<times> int) list \<Rightarrow> real \<Rightarrow> world \<times> (error + velocity_row list)" where
  "main_pipeline w samples period_s =
     pipeline ENCODER_POSITION_STEP_SIZE_DEG w (read_csv samples) period_s"

subsection \<open>Concrete inputs\<close>

text \<open>A world in which nothing has been printed yet. Each function assigns its own
  attributes before it reads them, so their values here are immaterial.\<close>

definition fresh_world :: world where
  "fresh_world = \<lparr>current_direction = [], last_direction = None, current_angle = 0, stdout = []\<rparr>"

text \<open>The capture of the specification's scenario: timestamps 0..5, channels
  (0,0),(0,0),(0,1),(1,1),(1,0),(0,0).\<close>

definition scenario :: "(pyfloat \<times> int \<times> int) list" where
  "scenario = [(Finite 0, 0, 0), (Finite 1, 0, 0), (Finite 2, 0, 1), (Finite 3, 1, 1), (Finite 4, 1, 0), (Finite 5, 0, 0)]"

text \<open>A clockwise step followed by a sample with no change: the capture, and its frame as
  the bitmask generator leaves it.\<close>

definition cw_then_hold_capture :: "(pyfloat \<times> int \<times> int) list" where
  "cw_then_hold_capture = [(Finite 0, 0, 0), (Finite 1, 0, 1), (Finite 2, 0, 1)]"

definition cw_then_hold_codes :: "bitmask_row list" where
  "cw_then_hold_codes =
      [\<lparr>idx = 0, timestamp = Finite 0, chan_a = 0, chan_b = 0, matches_initial_position = 1,
          timestamp_normalized_s = Finite 0, current_position_bitmask = ''00'',
          previous_position_bitmask = ''00''\<rparr>,
       \<lparr>idx = 1, timestamp = Finite 1, chan_a = 0, chan_b = 1, matches_initial_position = 0,
          timestamp_normalized_s = Finite 1, current_position_bitmask = ''01'',
          previous_position_bitmask = ''00''\<rparr>,
       \<lparr>idx = 2, timestamp = Finite 2, chan_a = 0, chan_b = 1, matches_initial_position = 0,
          timestamp_normalized_s = Finite 2, current_position_bitmask = ''01'',
          previous_position_bitmask = ''01''\<rparr>]"

text \<open>A capture in which the encoder never moves.\<close>

definition still_capture :: "(pyfloat \<times> int \<times> int) list" where
  "still_capture = [(Finite 0, 0, 0), (Finite 1, 0, 0)]"

text \<open>A capture whose first timestamp is beyond the range of a float: it parses to
  \<^verbatim>\<open>inf\<close>.\<close>

definition overflowing_capture :: "(pyfloat \<times> int \<times> int) list" where
  "overflowing_capture = [(PosInf, 0, 0), (PosInf, 0, 1)]"

text \<open>A frame, as the bitmask generator leaves it, in which both bits flip at once.\<close>

definition double_flip_codes :: "bitmask_row list" where
  "double_flip_codes =
      [\<lparr>idx = 0, timestamp = Finite 0, chan_a = 0, chan_b = 0, matches_initial_position = 1,
          timestamp_normalized_s = Finite 0, current_position_bitmask = ''00'',
          previous_position_bitmask = ''00''\<rparr>,
       \<lparr>idx = 1, timestamp = Finite 1, chan_a = 1, chan_b = 1, matches_initial_position = 0,
          timestamp_normalized_s = Finite 1, current_position_bitmask = ''11'',
          previous_position_bitmask = ''00''\<rparr>]"

section \<open>Properties\<close>

lemmas row_defs = capture_row.defs origin_row.defs normalized_row.defs bitmask_row.defs
  change_row.defs direction_row.defs angle_row.defs velocity_row.defs

subsection \<open>Helpers\<close>

lemma at_0_hd: "df \<noteq> [] \<Longrightarrow> idx (hd df) = 0 \<Longrightarrow> at_0 df = Inr (hd df)"
  by (cases df) (simp_all add: at_0_def)

lemma at_0_Nil: "at_0 [] = Inl KeyError"
  by (simp add: at_0_def)

lemma shift_nth: "i < length xs \<Longrightarrow> shift v xs ! i = (if i = 0 then v else xs ! (i - 1))"
  by (cases i) (simp_all add: shift_def)

lemma length_shift: "length (shift v xs) = length xs"
  by (simp add: shift_def)

lemma read_csv_from_length: "length (read_csv_from n s) = length s"
  by (induction n s rule: read_csv_from.induct) simp_all

lemma read_csv_from_nth:
  "i < length s \<Longrightarrow> read_csv_from n s ! i =
     \<lparr>idx = n + i, timestamp = fst (s ! i), chan_a = fst (snd (s ! i)), chan_b = snd (snd (s ! i))\<rparr>"
proof (induction n s arbitrary: i rule: read_csv_from.induct)
  case (1 n)
  then show ?case by simp
next
  case (2 n t a b rest)
  then show ?case by (cases i) simp_all
qed

subsection \<open>The bitmask generator\<close>

text \<open>
  Claim C6. The bitmask generator gives every sample the two-character binary code of
  \<open>(chan_a << 1) | chan_b\<close>, with (0,0), (0,1), (1,0), (1,1) coded ''00'', ''01'', ''10'',
  ''11''. On a frame whose first row is labelled 0 (as every loaded frame is) it does
  not raise, keeps the earlier columns, and the previous code of sample \<open>i\<close> is the
  current code of sample \<open>i - 1\<close> for \<open>i > 0\<close> and the sample's own current code for
  \<open>i = 0\<close>.
\<close>

theorem C6_bitmask_generator:
  assumes "df \<noteq> []" and "idx (hd df) = 0"
  shows "bitmask 0 0 = ''00'' \<and> bitmask 0 1 = ''01'' \<and> bitmask 1 0 = ''10'' \<and> bitmask 1 1 = ''11'' \<and>
    (\<exists>df'. generate_encoder_position_bitmask df = Inr df' \<and> length df' = length df \<and>
       (\<forall>i<length df.
          normalized_row.truncate (df' ! i) = df ! i \<and>
          current_position_bitmask (df' ! i) = bitmask (chan_a (df ! i)) (chan_b (df ! i)) \<and>
          previous_position_bitmask (df' ! i) =
            (if i = 0 then current_position_bitmask (df' ! 0)
             else current_position_bitmask (df' ! (i - 1)))))"
proof -
  have table: "bitmask 0 0 = ''00'' \<and> bitmask 0 1 = ''01'' \<and> bitmask 1 0 = ''10'' \<and> bitmask 1 1 = ''11''"
    by (simp add: bitmask_def py_bin_def zfill_def)
  have frame: "\<exists>df'. generate_encoder_position_bitmask df = Inr df' \<and> length df' = length df \<and>
       (\<forall>i<length df.
          normalized_row.truncate (df' ! i) = df ! i \<and>
          current_position_bitmask (df' ! i) = bitmask (chan_a (df ! i)) (chan_b (df ! i)) \<and>
          previous_position_bitmask (df' ! i) =
            (if i = 0 then current_position_bitmask (df' ! 0)
             else current_position_bitmask (df' ! (i - 1))))"
    using assms
    by (simp add: generate_encoder_position_bitmask_def at_0_hd Let_def length_shift shift_nth
        row_defs hd_conv_nth)
  from table frame show ?thesis by simp
qed

theorem C6_bitmask_generator_witness:
  "(case generate_encoder_position_bitmask
      [\<lparr>idx = 0, timestamp = Finite 5, chan_a = 0, chan_b = 1,
          matches_initial_position = 1, timestamp_normalized_s = Finite 0\<rparr>,
       \<lparr>idx = 1, timestamp = Finite 6, chan_a = 1, chan_b = 1,
          matches_initial_position = 0, timestamp_normalized_s = Finite 1\<rparr>] of
     Inr df' \<Rightarrow> map current_position_bitmask df' = [''01'', ''11''] \<and>
                map previous_position_bitmask df' = [''01'', ''01'']
   | Inl e \<Rightarrow> False)"
  using C6_bitmask_generator [of
      "[\<lparr>idx = 0, timestamp = Finite 5, chan_a = 0, chan_b = 1,
           matches_initial_position = 1, timestamp_normalized_s = Finite 0\<rparr>,
        \<lparr>idx = 1, timestamp = Finite 6, chan_a = 1, chan_b = 1,
           matches_initial_position = 0, timestamp_normalized_s = Finite 1\<rparr>]"]
  by (simp add: generate_encoder_position_bitmask_def at_0_def shift_def row_defs bitmask_def
      py_bin_def zfill_def)

subsection \<open>The direction classifier\<close>

lemma list_index_pattern:
  "list_index bitmask_cw_pattern x = Inr i \<longleftrightarrow>
     (x = ''00'' \<and> i = 0) \<or> (x = ''01'' \<and> i = 1) \<or> (x = ''11'' \<and> i = 2) \<or> (x = ''10'' \<and> i = 3)"
  by (auto simp: list_index_def bitmask_cw_pattern_def)

lemma check_direction_changed:
  assumes "change_occurred r \<noteq> 0"
    and "list_index bitmask_cw_pattern (previous_position_bitmask r) = Inr p"
    and "list_index bitmask_cw_pattern (current_position_bitmask r) = Inr c"
  shows "snd (check_direction w r) =
           (if int c = (int p + 1) mod 4 then Inr ''CW''
            else if int c = (int p - 1) mod 4 then Inr ''CCW''
            else Inl (IllegalChange (current_position_bitmask r) (timestamp_normalized_s r)))"
  using assms unfolding list_index_pattern
  by (elim disjE conjE) (simp_all add: check_direction_def list_index_def bitmask_cw_pattern_def)

lemma check_direction_Inr:
  assumes "snd (check_direction w r) = Inr d"
  shows "(change_occurred r = 0 \<and> d = '''') \<or> (change_occurred r \<noteq> 0 \<and> (d = ''CW'' \<or> d = ''CCW''))"
  using assms
  by (auto simp: check_direction_def Let_def split: sum.splits if_splits)

lemma check_direction_stdout: "stdout (fst (check_direction w r)) = stdout w"
  by (auto simp: check_direction_def Let_def split: sum.splits if_splits)

lemma check_direction_snd_indep: "snd (check_direction w r) = snd (check_direction v r)"
  by (auto simp: check_direction_def Let_def split: sum.splits)

lemma apply_check_direction_Inr:
  "apply_check_direction w rs = (w', Inr ds) \<Longrightarrow>
     length ds = length rs \<and> (\<forall>i<length rs. snd (check_direction v (rs ! i)) = Inr (ds ! i))"
proof (induction rs arbitrary: w w' ds)
  case Nil
  then show ?case by simp
next
  case (Cons r rs)
  from Cons.prems obtain w1 d w2 ds' where
    step: "check_direction w r = (w1, Inr d)" and
    rest: "apply_check_direction w1 rs = (w2, Inr ds')" and
    ds: "ds = d # ds'"
    by (auto split: prod.splits sum.splits)
  from step have "snd (check_direction v r) = Inr d"
    using check_direction_snd_indep [of v r w] by simp
  moreover from Cons.IH [OF rest]
  have "length ds' = length rs" and "\<forall>i<length rs. snd (check_direction v (rs ! i)) = Inr (ds' ! i)"
    by simp_all
  ultimately show ?case
    using ds by (auto simp: nth_Cons split: nat.splits)
qed

lemma apply_check_direction_Inl:
  "apply_check_direction w rs = (w', Inl e) \<Longrightarrow>
     \<exists>i<length rs. snd (check_direction v (rs ! i)) = Inl e"
proof (induction rs arbitrary: w w')
  case Nil
  then show ?case by simp
next
  case (Cons r rs)
  show ?case
  proof (cases "snd (check_direction w r)")
    case (Inl e')
    with Cons.prems have "e' = e"
      by (auto split: prod.splits sum.splits)
    with Inl have "snd (check_direction v ((r # rs) ! 0)) = Inl e"
      using check_direction_snd_indep [of v r w] by simp
    then show ?thesis by blast
  next
    case (Inr d)
    with Cons.prems obtain w1 where "apply_check_direction w1 rs = (w', Inl e)"
      by (auto split: prod.splits sum.splits)
    from Cons.IH [OF this] obtain i where "i < length rs" "snd (check_direction v (rs ! i)) = Inl e"
      by blast
    then have "Suc i < length (r # rs)" "snd (check_direction v ((r # rs) ! Suc i)) = Inl e"
      by simp_all
    then show ?thesis by blast
  qed
qed

lemma apply_check_direction_stdout:
  "stdout (fst (apply_check_direction w rs)) = stdout w"
proof (induction rs arbitrary: w)
  case Nil
  then show ?case by simp
next
  case (Cons r rs)
  obtain w1 res where step: "check_direction w r = (w1, res)" by (cases "check_direction w r")
  then have w1: "stdout w1 = stdout w" using check_direction_stdout [of w r] by simp
  show ?case
  proof (cases res)
    case (Inl e)
    with step w1 show ?thesis by simp
  next
    case (Inr d)
    obtain w2 res2 where rest: "apply_check_direction w1 rs = (w2, res2)"
      by (cases "apply_check_direction w1 rs")
    with Cons.IH [of w1] w1 have "stdout w2 = stdout w" by simp
    with step Inr rest show ?thesis by (cases res2) simp_all
  qed
qed

lemma detect_direction_of_motion_Inr:
  assumes "detect_direction_of_motion w df = (w', Inr df')"
  shows "length df' = length df \<and> stdout w' = stdout w \<and>
    (\<forall>i<length df. \<exists>d.
       df' ! i = change_row.extend
          (bitmask_row.extend (df ! i) (change_row.fields
             (if current_position_bitmask (df ! i) = previous_position_bitmask (df ! i) then 0 else 1)))
          (direction_row.fields d) \<and>
       snd (check_direction v
          (bitmask_row.extend (df ! i) (change_row.fields
             (if current_position_bitmask (df ! i) = previous_position_bitmask (df ! i) then 0 else 1))))
         = Inr d)"
proof -
  let ?w0 = "w\<lparr>current_direction := ''''\<rparr>"
  let ?df = "map (\<lambda>r. bitmask_row.extend r
                  (change_row.fields
                     (if current_position_bitmask r = previous_position_bitmask r then 0 else 1))) df"
  from assms obtain ds where
    app: "apply_check_direction ?w0 ?df = (w', Inr ds)" and
    df': "df' = map (\<lambda>(r, d). change_row.extend r (direction_row.fields d)) (zip ?df ds)"
    by (auto simp: detect_direction_of_motion_def Let_def split: prod.splits sum.splits)
  from apply_check_direction_Inr [OF app, of v]
  have len: "length ds = length df"
    and each: "\<forall>i<length df. snd (check_direction v (?df ! i)) = Inr (ds ! i)"
    by simp_all
  have out: "stdout w' = stdout w"
    using apply_check_direction_stdout [of ?w0 ?df] app by simp
  from len each have "\<forall>i<length df. \<exists>d.
       df' ! i = change_row.extend
          (bitmask_row.extend (df ! i) (change_row.fields
             (if current_position_bitmask (df ! i) = previous_position_bitmask (df ! i) then 0 else 1)))
          (direction_row.fields d) \<and>
       snd (check_direction v
          (bitmask_row.extend (df ! i) (change_row.fields
             (if current_position_bitmask (df ! i) = previous_position_bitmask (df ! i) then 0 else 1))))
         = Inr d"
    by (simp add: df')
  with len out show ?thesis by (simp add: df')
qed

text \<open>The rule of \<^verbatim>\<open>check_direction\<close> on a changed row, and what it means for a run of
  the classifier over the frame.\<close>

lemma classifier_rule:
  assumes "i < length df"
    and "current_position_bitmask (df ! i) \<noteq> previous_position_bitmask (df ! i)"
    and "list_index bitmask_cw_pattern (previous_position_bitmask (df ! i)) = Inr p"
    and "list_index bitmask_cw_pattern (current_position_bitmask (df ! i)) = Inr c"
  shows "snd (check_direction v (bitmask_row.extend (df ! i) (change_row.fields 1))) =
           (if int c = (int p + 1) mod 4 then Inr ''CW''
            else if int c = (int p - 1) mod 4 then Inr ''CCW''
            else Inl (IllegalChange (current_position_bitmask (df ! i))
                                    (timestamp_normalized_s (df ! i)))) \<and>
         (if int c = (int p + 1) mod 4 \<or> int c = (int p - 1) mod 4
          then \<forall>w' df'. detect_direction_of_motion w df = (w', Inr df') \<longrightarrow>
                 change_occurred (df' ! i) = 1 \<and>
                 direction (df' ! i) = (if int c = (int p + 1) mod 4 then ''CW'' else ''CCW'')
          else \<exists>w' e. detect_direction_of_motion w df = (w', Inl e))"
proof -
  let ?r = "bitmask_row.extend (df ! i) (change_row.fields 1)"
  have r: "change_occurred ?r \<noteq> 0"
    "previous_position_bitmask ?r = previous_position_bitmask (df ! i)"
    "current_position_bitmask ?r = current_position_bitmask (df ! i)"
    "timestamp_normalized_s ?r = timestamp_normalized_s (df ! i)"
    by (simp_all add: row_defs)
  have rule: "snd (check_direction u ?r) =
           (if int c = (int p + 1) mod 4 then Inr ''CW''
            else if int c = (int p - 1) mod 4 then Inr ''CCW''
            else Inl (IllegalChange (current_position_bitmask (df ! i))
                                    (timestamp_normalized_s (df ! i))))" for u
    using check_direction_changed [of ?r p c u] assms(3,4) r by simp
  have good: "change_occurred (df' ! i) = 1 \<and>
      direction (df' ! i) = (if int c = (int p + 1) mod 4 then ''CW'' else ''CCW'')"
    if legal: "int c = (int p + 1) mod 4 \<or> int c = (int p - 1) mod 4"
      and run: "detect_direction_of_motion w df = (w', Inr df')" for w' df'
  proof -
    from detect_direction_of_motion_Inr [OF run, of v] assms(1,2)
    obtain d where row: "df' ! i = change_row.extend ?r (direction_row.fields d)"
      and d: "snd (check_direction v ?r) = Inr d"
      by auto
    from d rule [of v] legal have "d = (if int c = (int p + 1) mod 4 then ''CW'' else ''CCW'')"
      by (auto split: if_splits)
    then show ?thesis
      unfolding row by (simp add: row_defs)
  qed
  have bad: "\<exists>w' e. detect_direction_of_motion w df = (w', Inl e)"
    if illegal: "\<not> (int c = (int p + 1) mod 4 \<or> int c = (int p - 1) mod 4)"
  proof (cases "detect_direction_of_motion w df")
    case (Pair w' res)
    show ?thesis
    proof (cases res)
      case (Inl e)
      with Pair show ?thesis by blast
    next
      case (Inr df')
      from detect_direction_of_motion_Inr [of w df w' df' v] Pair Inr assms(1,2)
      obtain d where "snd (check_direction v ?r) = Inr d"
        by auto
      with rule [of v] illegal show ?thesis by simp
    qed
  qed
  from rule [of v] good bad show ?thesis by simp
qed

lemma apply_check_direction_all_Inr:
  assumes "\<forall>i<length rs. \<exists>d. snd (check_direction v (rs ! i)) = Inr d"
  shows "\<exists>w' ds. apply_check_direction w rs = (w', Inr ds)"
proof (cases "apply_check_direction w rs")
  case (Pair w' res)
  show ?thesis
  proof (cases res)
    case (Inl e)
    with Pair apply_check_direction_Inl [of w rs w' e v]
    obtain i where "i < length rs" "snd (check_direction v (rs ! i)) = Inl e"
      by blast
    with assms show ?thesis by force
  next
    case (Inr ds)
    with Pair show ?thesis by blast
  qed
qed

lemma apply_check_direction_first_Inl:
  assumes "i < length rs"
    and "snd (check_direction v (rs ! i)) = Inl e"
    and "\<forall>j<i. \<exists>d. snd (check_direction v (rs ! j)) = Inr d"
  shows "snd (apply_check_direction w rs) = Inl e"
  using assms
proof (induction rs arbitrary: i w)
  case Nil
  then show ?case by simp
next
  case (Cons r rs)
  obtain w1 res where step: "check_direction w r = (w1, res)" by (cases "check_direction w r")
  have same: "snd (check_direction v r) = res"
    using check_direction_snd_indep [of v r w] step by simp
  show ?case
  proof (cases i)
    case 0
    with Cons.prems(2) same have "res = Inl e" by simp
    with step show ?thesis by simp
  next
    case (Suc k)
    from Cons.prems(3) Suc have "\<exists>d. snd (check_direction v ((r # rs) ! 0)) = Inr d"
      by blast
    with same obtain d where d: "res = Inr d" by auto
    from Cons.prems Suc have k: "k < length rs" "snd (check_direction v (rs ! k)) = Inl e"
      by simp_all
    have "\<forall>j<k. \<exists>d. snd (check_direction v (rs ! j)) = Inr d"
    proof (intro allI impI)
      fix j assume "j < k"
      then have "Suc j < i" using Suc by simp
      with Cons.prems(3) have "\<exists>d. snd (check_direction v ((r # rs) ! Suc j)) = Inr d" by blast
      then show "\<exists>d. snd (check_direction v (rs ! j)) = Inr d" by simp
    qed
    from Cons.IH [OF k this, of w1] step d show ?thesis
      by (auto split: prod.splits sum.splits)
  qed
qed

lemma check_direction_by_codes:
  assumes "list_index bitmask_cw_pattern (previous_position_bitmask r) = Inr p"
    and "list_index bitmask_cw_pattern (current_position_bitmask r) = Inr c"
  shows "snd (check_direction v (bitmask_row.extend r (change_row.fields
             (if current_position_bitmask r = previous_position_bitmask r then 0 else 1)))) =
         (if current_position_bitmask r = previous_position_bitmask r then Inr ''''
          else if int c = (int p + 1) mod 4 then Inr ''CW''
          else if int c = (int p - 1) mod 4 then Inr ''CCW''
          else Inl (IllegalChange (current_position_bitmask r) (timestamp_normalized_s r)))"
proof (cases "current_position_bitmask r = previous_position_bitmask r")
  case True
  with assms show ?thesis
    by (simp add: check_direction_def row_defs)
next
  case False
  let ?r = "bitmask_row.extend r (change_row.fields 1)"
  have "change_occurred ?r \<noteq> 0"
    "previous_position_bitmask ?r = previous_position_bitmask r"
    "current_position_bitmask ?r = current_position_bitmask r"
    "timestamp_normalized_s ?r = timestamp_normalized_s r"
    by (simp_all add: row_defs)
  with check_direction_changed [of ?r p c v] assms False show ?thesis by simp
qed

lemma detect_direction_of_motion_all_legal:
  assumes "\<forall>j<length df. \<exists>p c.
      list_index bitmask_cw_pattern (previous_position_bitmask (df ! j)) = Inr p \<and>
      list_index bitmask_cw_pattern (current_position_bitmask (df ! j)) = Inr c \<and>
      (current_position_bitmask (df ! j) = previous_position_bitmask (df ! j) \<or>
       int c = (int p + 1) mod 4 \<or> int c = (int p - 1) mod 4)"
  shows "\<exists>w' df'. detect_direction_of_motion w df = (w', Inr df')"
proof -
  let ?c = "\<lambda>r. bitmask_row.extend r
                  (change_row.fields
                     (if current_position_bitmask r = previous_position_bitmask r then 0 else 1))"
  have "\<forall>j<length (map ?c df). \<exists>d. snd (check_direction w (map ?c df ! j)) = Inr d"
  proof (intro allI impI)
    fix j assume "j < length (map ?c df)"
    then have j: "j < length df" by simp
    with assms obtain p c where
      p: "list_index bitmask_cw_pattern (previous_position_bitmask (df ! j)) = Inr p" and
      c: "list_index bitmask_cw_pattern (current_position_bitmask (df ! j)) = Inr c" and
      l: "current_position_bitmask (df ! j) = previous_position_bitmask (df ! j) \<or>
          int c = (int p + 1) mod 4 \<or> int c = (int p - 1) mod 4"
      by blast
    from check_direction_by_codes [OF p c, of w] l
    have "\<exists>d. snd (check_direction w (?c (df ! j))) = Inr d"
      by auto
    with j show "\<exists>d. snd (check_direction w (map ?c df ! j)) = Inr d" by simp
  qed
  from apply_check_direction_all_Inr [OF this, of "w\<lparr>current_direction := ''''\<rparr>"]
  obtain w' ds where "apply_check_direction (w\<lparr>current_direction := ''''\<rparr>) (map ?c df) = (w', Inr ds)"
    by blast
  then show ?thesis
    by (simp add: detect_direction_of_motion_def Let_def)
qed

lemma detect_direction_of_motion_first_illegal:
  assumes i: "i < length df"
    and p: "list_index bitmask_cw_pattern (previous_position_bitmask (df ! i)) = Inr p"
    and c: "list_index bitmask_cw_pattern (current_position_bitmask (df ! i)) = Inr c"
    and ch: "current_position_bitmask (df ! i) \<noteq> previous_position_bitmask (df ! i)"
    and bad: "\<not> (int c = (int p + 1) mod 4 \<or> int c = (int p - 1) mod 4)"
    and before: "\<forall>j<i. \<exists>p c.
      list_index bitmask_cw_pattern (previous_position_bitmask (df ! j)) = Inr p \<and>
      list_index bitmask_cw_pattern (current_position_bitmask (df ! j)) = Inr c \<and>
      (current_position_bitmask (df ! j) = previous_position_bitmask (df ! j) \<or>
       int c = (int p + 1) mod 4 \<or> int c = (int p - 1) mod 4)"
  shows "\<exists>w'. detect_direction_of_motion w df =
           (w', Inl (IllegalChange (current_position_bitmask (df ! i))
                                   (timestamp_normalized_s (df ! i))))"
proof -
  let ?c = "\<lambda>r. bitmask_row.extend r
                  (change_row.fields
                     (if current_position_bitmask r = previous_position_bitmask r then 0 else 1))"
  let ?e = "IllegalChange (current_position_bitmask (df ! i)) (timestamp_normalized_s (df ! i))"
  have i': "i < length (map ?c df)" using i by simp
  have at_i: "snd (check_direction w (map ?c df ! i)) = Inl ?e"
    using check_direction_by_codes [OF p c, of w] ch bad i by simp
  have "\<forall>j<i. \<exists>d. snd (check_direction w (map ?c df ! j)) = Inr d"
  proof (intro allI impI)
    fix j assume ji: "j < i"
    with i have j: "j < length df" by simp
    from before ji obtain p' c' where
      p': "list_index bitmask_cw_pattern (previous_position_bitmask (df ! j)) = Inr p'" and
      c': "list_index bitmask_cw_pattern (current_position_bitmask (df ! j)) = Inr c'" and
      l: "current_position_bitmask (df ! j) = previous_position_bitmask (df ! j) \<or>
          int c' = (int p' + 1) mod 4 \<or> int c' = (int p' - 1) mod 4"
      by blast
    from check_direction_by_codes [OF p' c', of w] l
    have "\<exists>d. snd (check_direction w (?c (df ! j))) = Inr d"
      by auto
    with j show "\<exists>d. snd (check_direction w (map ?c df ! j)) = Inr d" by simp
  qed
  from apply_check_direction_first_Inl [OF i' at_i this, of "w\<lparr>current_direction := ''''\<rparr>"]
  have "snd (apply_check_direction (w\<lparr>current_direction := ''''\<rparr>) (map ?c df)) = Inl ?e" .
  then show ?thesis
    by (auto simp: detect_direction_of_motion_def Let_def split: prod.splits sum.splits)
qed

text \<open>
  Claim C3. For a sample whose code changed, with \<open>p\<close> and \<open>c\<close> the positions of the
  previous and the current code in the cycle ''00'', ''01'', ''11'', ''10'',
  \<^verbatim>\<open>check_direction\<close> gives CW exactly when \<open>c = (p + 1) mod 4\<close>, CCW exactly when
  \<open>c = (p - 1) mod 4\<close>, and raises the illegal-change error otherwise. Over the frame:
  when the change is legal, a run of the classifier that returns has given the sample
  that direction, and the run does return when every sample of the frame has codes
  of the cycle and no illegal change; when the change is illegal the run raises, and
  it raises the illegal-change error of this sample when the samples before it are
  in order. So the capture is aborted.
\<close>

theorem C3_classifier_assigns_or_raises:
  assumes "i < length df"
    and "current_position_bitmask (df ! i) \<noteq> previous_position_bitmask (df ! i)"
    and "list_index bitmask_cw_pattern (previous_position_bitmask (df ! i)) = Inr p"
    and "list_index bitmask_cw_pattern (current_position_bitmask (df ! i)) = Inr c"
  shows "snd (check_direction v (bitmask_row.extend (df ! i) (change_row.fields 1))) =
           (if int c = (int p + 1) mod 4 then Inr ''CW''
            else if int c = (int p - 1) mod 4 then Inr ''CCW''
            else Inl (IllegalChange (current_position_bitmask (df ! i))
                                    (timestamp_normalized_s (df ! i)))) \<and>
         (if int c = (int p + 1) mod 4 \<or> int c = (int p - 1) mod 4
          then \<forall>w' df'. detect_direction_of_motion w df = (w', Inr df') \<longrightarrow>
                 change_occurred (df' ! i) = 1 \<and>
                 direction (df' ! i) = (if int c = (int p + 1) mod 4 then ''CW'' else ''CCW'')
          else \<exists>w' e. detect_direction_of_motion w df = (w', Inl e)) \<and>
         ((\<forall>j<length df. \<exists>p c.
              list_index bitmask_cw_pattern (previous_position_bitmask (df ! j)) = Inr p \<and>
              list_index bitmask_cw_pattern (current_position_bitmask (df ! j)) = Inr c \<and>
              (current_position_bitmask (df ! j) = previous_position_bitmask (df ! j) \<or>
               int c = (int p + 1) mod 4 \<or> int c = (int p - 1) mod 4)) \<longrightarrow>
          (\<exists>w' df'. detect_direction_of_motion w df = (w', Inr df') \<and>
             length df' = length df \<and> change_occurred (df' ! i) = 1 \<and>
             direction (df' ! i) = (if int c = (int p + 1) mod 4 then ''CW'' else ''CCW''))) \<and>
         (\<not> (int c = (int p + 1) mod 4 \<or> int c = (int p - 1) mod 4) \<and>
          (\<forall>j<i. \<exists>p c.
              list_index bitmask_cw_pattern (previous_position_bitmask (df ! j)) = Inr p \<and>
              list_index bitmask_cw_pattern (current_position_bitmask (df ! j)) = Inr c \<and>
              (current_position_bitmask (df ! j) = previous_position_bitmask (df ! j) \<or>
               int c = (int p + 1) mod 4 \<or> int c = (int p - 1) mod 4)) \<longrightarrow>
          (\<exists>w'. detect_direction_of_motion w df =
             (w', Inl (IllegalChange (current_position_bitmask (df ! i))
                                     (timestamp_normalized_s (df ! i))))))"
proof -
  note rule = classifier_rule [OF assms, of v w]
  have total: "\<exists>w' df'. detect_direction_of_motion w df = (w', Inr df') \<and>
             length df' = length df \<and> change_occurred (df' ! i) = 1 \<and>
             direction (df' ! i) = (if int c = (int p + 1) mod 4 then ''CW'' else ''CCW'')"
    if legal: "\<forall>j<length df. \<exists>p c.
              list_index bitmask_cw_pattern (previous_position_bitmask (df ! j)) = Inr p \<and>
              list_index bitmask_cw_pattern (current_position_bitmask (df ! j)) = Inr c \<and>
              (current_position_bitmask (df ! j) = previous_position_bitmask (df ! j) \<or>
               int c = (int p + 1) mod 4 \<or> int c = (int p - 1) mod 4)"
  proof -
    from detect_direction_of_motion_all_legal [OF legal, of w]
    obtain w' df' where run: "detect_direction_of_motion w df = (w', Inr df')"
      by blast
    from legal assms(1) obtain p' c' where
      "list_index bitmask_cw_pattern (previous_position_bitmask (df ! i)) = Inr p'"
      "list_index bitmask_cw_pattern (current_position_bitmask (df ! i)) = Inr c'"
      "current_position_bitmask (df ! i) = previous_position_bitmask (df ! i) \<or>
       int c' = (int p' + 1) mod 4 \<or> int c' = (int p' - 1) mod 4"
      by blast
    with assms(2,3,4) have ok: "int c = (int p + 1) mod 4 \<or> int c = (int p - 1) mod 4"
      by auto
    from detect_direction_of_motion_Inr [OF run, of w] have len: "length df' = length df"
      by simp
    from rule ok run have "change_occurred (df' ! i) = 1 \<and>
        direction (df' ! i) = (if int c = (int p + 1) mod 4 then ''CW'' else ''CCW'')"
      by (simp only: if_P)
    with run len show ?thesis by blast
  qed
  have first: "\<exists>w'. detect_direction_of_motion w df =
             (w', Inl (IllegalChange (current_position_bitmask (df ! i))
                                     (timestamp_normalized_s (df ! i))))"
    if bad: "\<not> (int c = (int p + 1) mod 4 \<or> int c = (int p - 1) mod 4)"
      and before: "\<forall>j<i. \<exists>p c.
              list_index bitmask_cw_pattern (previous_position_bitmask (df ! j)) = Inr p \<and>
              list_index bitmask_cw_pattern (current_position_bitmask (df ! j)) = Inr c \<and>
              (current_position_bitmask (df ! j) = previous_position_bitmask (df ! j) \<or>
               int c = (int p + 1) mod 4 \<or> int c = (int p - 1) mod 4)"
    using detect_direction_of_motion_first_illegal [OF assms(1,3,4,2) bad before] .
  from rule total first show ?thesis by blast
qed

theorem C3_classifier_assigns_or_raises_witness:
  "(\<exists>w' df'. detect_direction_of_motion fresh_world cw_then_hold_codes = (w', Inr df') \<and>
      length df' = 3 \<and> change_occurred (df' ! 1) = 1 \<and> direction (df' ! 1) = ''CW'') \<and>
   (\<exists>w'. detect_direction_of_motion fresh_world double_flip_codes =
      (w', Inl (IllegalChange ''11'' (Finite 1))))"
proof -
  have i1: "1 < length cw_then_hold_codes"
    and ch1: "current_position_bitmask (cw_then_hold_codes ! 1) \<noteq>
              previous_position_bitmask (cw_then_hold_codes ! 1)"
    and p1: "list_index bitmask_cw_pattern (previous_position_bitmask (cw_then_hold_codes ! 1)) = Inr 0"
    and c1: "list_index bitmask_cw_pattern (current_position_bitmask (cw_then_hold_codes ! 1)) = Inr 1"
    by (simp_all add: cw_then_hold_codes_def list_index_def bitmask_cw_pattern_def)
  have legal: "\<forall>j<length cw_then_hold_codes. \<exists>p c.
      list_index bitmask_cw_pattern (previous_position_bitmask (cw_then_hold_codes ! j)) = Inr p \<and>
      list_index bitmask_cw_pattern (current_position_bitmask (cw_then_hold_codes ! j)) = Inr c \<and>
      (current_position_bitmask (cw_then_hold_codes ! j) =
         previous_position_bitmask (cw_then_hold_codes ! j) \<or>
       int c = (int p + 1) mod 4 \<or> int c = (int p - 1) mod 4)"
    by (simp add: cw_then_hold_codes_def list_index_def bitmask_cw_pattern_def All_less_Suc)
  have i2: "1 < length double_flip_codes"
    and ch2: "current_position_bitmask (double_flip_codes ! 1) \<noteq>
              previous_position_bitmask (double_flip_codes ! 1)"
    and p2: "list_index bitmask_cw_pattern (previous_position_bitmask (double_flip_codes ! 1)) = Inr 0"
    and c2: "list_index bitmask_cw_pattern (current_position_bitmask (double_flip_codes ! 1)) = Inr 2"
    by (simp_all add: double_flip_codes_def list_index_def bitmask_cw_pattern_def)
  have before: "\<forall>j<1. \<exists>p c.
      list_index bitmask_cw_pattern (previous_position_bitmask (double_flip_codes ! j)) = Inr p \<and>
      list_index bitmask_cw_pattern (current_position_bitmask (double_flip_codes ! j)) = Inr c \<and>
      (current_position_bitmask (double_flip_codes ! j) =
         previous_position_bitmask (double_flip_codes ! j) \<or>
       int c = (int p + 1) mod 4 \<or> int c = (int p - 1) mod 4)"
    by (simp add: double_flip_codes_def list_index_def bitmask_cw_pattern_def)
  have v2: "current_position_bitmask (double_flip_codes ! 1) = ''11''"
    "timestamp_normalized_s (double_flip_codes ! 1) = Finite 1"
    by (simp_all add: double_flip_codes_def)
  have len: "length cw_then_hold_codes = 3" by (simp add: cw_then_hold_codes_def)
  from C3_classifier_assigns_or_raises [OF i1 ch1 p1 c1, of fresh_world fresh_world] legal len
  have A: "\<exists>w' df'. detect_direction_of_motion fresh_world cw_then_hold_codes = (w', Inr df') \<and>
      length df' = 3 \<and> change_occurred (df' ! 1) = 1 \<and> direction (df' ! 1) = ''CW''"
    by simp
  from C3_classifier_assigns_or_raises [OF i2 ch2 p2 c2, of fresh_world fresh_world] before
  have B: "\<exists>w'. detect_direction_of_motion fresh_world double_flip_codes =
      (w', Inl (IllegalChange ''11'' (Finite 1)))"
    unfolding v2 by simp
  from A B show ?thesis by blast
qed

subsection \<open>The angular position integrator\<close>

lemma track_angular_change_unchanged:
  "change_occurred r = 0 \<Longrightarrow> track_angular_change step w r = (w, current_angle w)"
  by (simp add: track_angular_change_def)

lemma track_angular_change_classified:
  assumes "change_occurred r = 0 \<or> direction r = ''CW'' \<or> direction r = ''CCW''"
  shows "stdout (fst (track_angular_change step w r)) = stdout w \<and>
         snd (track_angular_change step w r) = current_angle (fst (track_angular_change step w r)) \<and>
         snd (track_angular_change step w r) = current_angle w +
           (if change_occurred r = 0 then 0
            else if direction r = ''CW'' then step else - step)"
  using assms by (auto simp: track_angular_change_def Let_def)

lemma apply_track_angular_change_classified:
  assumes "\<forall>i<length rs. change_occurred (rs ! i) = 0 \<or> direction (rs ! i) = ''CW'' \<or>
             direction (rs ! i) = ''CCW''"
    and "apply_track_angular_change step w rs = (w', as)"
  shows "length as = length rs \<and> stdout w' = stdout w \<and>
         (\<forall>i<length rs. as ! i = (if i = 0 then current_angle w else as ! (i - 1)) +
             (if change_occurred (rs ! i) = 0 then 0
              else if direction (rs ! i) = ''CW'' then step else - step))"
  using assms
proof (induction rs arbitrary: w w' as)
  case Nil
  then show ?case by simp
next
  case (Cons r rs)
  obtain w1 a where step1: "track_angular_change step w r = (w1, a)"
    by (cases "track_angular_change step w r")
  obtain w2 as' where rest: "apply_track_angular_change step w1 rs = (w2, as')"
    by (cases "apply_track_angular_change step w1 rs")
  from Cons.prems(2) step1 rest have w': "w' = w2" and as: "as = a # as'"
    by simp_all
  from Cons.prems(1) have r: "change_occurred r = 0 \<or> direction r = ''CW'' \<or> direction r = ''CCW''"
    by (metis length_Cons nth_Cons_0 zero_less_Suc)
  from Cons.prems(1) have rs: "\<forall>i<length rs. change_occurred (rs ! i) = 0 \<or>
      direction (rs ! i) = ''CW'' \<or> direction (rs ! i) = ''CCW''"
    by (metis Suc_less_eq length_Cons nth_Cons_Suc)
  from track_angular_change_classified [OF r, of step w] step1
  have out1: "stdout w1 = stdout w" and cur1: "a = current_angle w1"
    and a: "a = current_angle w +
           (if change_occurred r = 0 then 0 else if direction r = ''CW'' then step else - step)"
    by simp_all
  from Cons.IH [OF rs rest]
  have len: "length as' = length rs" and out2: "stdout w2 = stdout w1"
    and each: "\<forall>i<length rs. as' ! i = (if i = 0 then current_angle w1 else as' ! (i - 1)) +
             (if change_occurred (rs ! i) = 0 then 0
              else if direction (rs ! i) = ''CW'' then step else - step)"
    by simp_all
  have "(a # as') ! i = (if i = 0 then current_angle w else (a # as') ! (i - 1)) +
             (if change_occurred ((r # rs) ! i) = 0 then 0
              else if direction ((r # rs) ! i) = ''CW'' then step else - step)"
    if "i < length (r # rs)" for i
  proof (cases i)
    case 0
    with a show ?thesis by simp
  next
    case (Suc j)
    with that have j: "j < length rs" by simp
    from each j have "as' ! j = (if j = 0 then current_angle w1 else as' ! (j - 1)) +
             (if change_occurred (rs ! j) = 0 then 0
              else if direction (rs ! j) = ''CW'' then step else - step)"
      by blast
    with Suc cur1 show ?thesis by (cases j) simp_all
  qed
  with len out1 out2 w' as show ?case by simp
qed

lemma apply_track_angular_change_length:
  "apply_track_angular_change step w rs = (w', as) \<Longrightarrow> length as = length rs"
  by (induction rs arbitrary: w w' as) (auto split: prod.splits)

lemma detect_change_in_angular_position_classified:
  assumes "\<forall>i<length df. change_occurred (df ! i) = 0 \<or> direction (df ! i) = ''CW'' \<or>
             direction (df ! i) = ''CCW''"
    and "detect_change_in_angular_position step w df = (w', df')"
  shows "stdout w' = stdout w \<and> current_angle w' = 0 \<and> last_direction w' = None \<and>
         (\<exists>as. length as = length df \<and>
            df' = map (\<lambda>(r, a). direction_row.extend r (angle_row.fields a)) (zip df as) \<and>
            (\<forall>i<length df. as ! i = (if i = 0 then 0 else as ! (i - 1)) +
               (if change_occurred (df ! i) = 0 then 0
                else if direction (df ! i) = ''CW'' then step else - step)))"
proof -
  let ?w0 = "w\<lparr>last_direction := None, current_angle := 0\<rparr>"
  obtain w1 as where app: "apply_track_angular_change step ?w0 df = (w1, as)"
    by (cases "apply_track_angular_change step ?w0 df")
  with assms(2) have w': "w' = w1\<lparr>current_angle := 0, last_direction := None\<rparr>"
    and df': "df' = map (\<lambda>(r, a). direction_row.extend r (angle_row.fields a)) (zip df as)"
    by (simp_all add: detect_change_in_angular_position_def Let_def)
  from apply_track_angular_change_classified [OF assms(1) app]
  have len: "length as = length df" and out: "stdout w1 = stdout w"
    and each: "\<forall>i<length df. as ! i = (if i = 0 then 0 else as ! (i - 1)) +
             (if change_occurred (df ! i) = 0 then 0
              else if direction (df ! i) = ''CW'' then step else - step)"
    by simp_all
  from len df' each have "\<exists>as. length as = length df \<and>
            df' = map (\<lambda>(r, a). direction_row.extend r (angle_row.fields a)) (zip df as) \<and>
            (\<forall>i<length df. as ! i = (if i = 0 then 0 else as ! (i - 1)) +
               (if change_occurred (df ! i) = 0 then 0
                else if direction (df ! i) = ''CW'' then step else - step))"
    by blast
  with out show ?thesis by (simp add: w')
qed

lemma detect_direction_of_motion_classified:
  assumes "detect_direction_of_motion w df = (w', Inr df')"
  shows "\<forall>i<length df'.
           (change_occurred (df' ! i) = 0 \<and> direction (df' ! i) = '''') \<or>
           (change_occurred (df' ! i) \<noteq> 0 \<and>
              (direction (df' ! i) = ''CW'' \<or> direction (df' ! i) = ''CCW''))"
proof (intro allI impI)
  fix i assume "i < length df'"
  with detect_direction_of_motion_Inr [OF assms, of w] have i: "i < length df" by simp
  let ?r = "bitmask_row.extend (df ! i) (change_row.fields
             (if current_position_bitmask (df ! i) = previous_position_bitmask (df ! i) then 0 else 1))"
  from detect_direction_of_motion_Inr [OF assms, of w] i
  obtain d where row: "df' ! i = change_row.extend ?r (direction_row.fields d)"
    and d: "snd (check_direction w ?r) = Inr d"
    by blast
  have "change_occurred (df' ! i) = change_occurred ?r" "direction (df' ! i) = d"
    unfolding row by (simp_all add: row_defs)
  with check_direction_Inr [OF d]
  show "(change_occurred (df' ! i) = 0 \<and> direction (df' ! i) = '''') \<or>
           (change_occurred (df' ! i) \<noteq> 0 \<and>
              (direction (df' ! i) = ''CW'' \<or> direction (df' ! i) = ''CCW''))"
    by simp
qed

text \<open>The integrator over a frame the classifier has returned.\<close>

lemma integrate_classified:
  assumes "detect_direction_of_motion w df = (w1, Inr df4)"
    and "detect_change_in_angular_position step w1 df4 = (w2, df5)"
  shows "(\<forall>i<length df4. change_occurred (df4 ! i) \<noteq> 0 \<longrightarrow>
            direction (df4 ! i) = ''CW'' \<or> direction (df4 ! i) = ''CCW'') \<and>
         stdout w2 = stdout w1 \<and> length df5 = length df4 \<and>
         (\<forall>i<length df5.
            direction_row.truncate (df5 ! i) = df4 ! i \<and>
            angle_deg (df5 ! i) = (if i = 0 then 0 else angle_deg (df5 ! (i - 1))) +
              (if direction (df4 ! i) = ''CW'' then step
               else if direction (df4 ! i) = ''CCW'' then - step else 0) \<and>
            (change_occurred (df5 ! i) = 0 \<longrightarrow>
               angle_deg (df5 ! i) = (if i = 0 then 0 else angle_deg (df5 ! (i - 1)))))"
proof -
  from detect_direction_of_motion_classified [OF assms(1)]
  have cls: "\<forall>i<length df4.
           (change_occurred (df4 ! i) = 0 \<and> direction (df4 ! i) = '''') \<or>
           (change_occurred (df4 ! i) \<noteq> 0 \<and>
              (direction (df4 ! i) = ''CW'' \<or> direction (df4 ! i) = ''CCW''))" .
  then have ok: "\<forall>i<length df4. change_occurred (df4 ! i) = 0 \<or> direction (df4 ! i) = ''CW'' \<or>
             direction (df4 ! i) = ''CCW''"
    by blast
  from detect_change_in_angular_position_classified [OF ok assms(2)]
  obtain as where out: "stdout w2 = stdout w1" and len: "length as = length df4"
    and df5: "df5 = map (\<lambda>(r, a). direction_row.extend r (angle_row.fields a)) (zip df4 as)"
    and each: "\<forall>i<length df4. as ! i = (if i = 0 then 0 else as ! (i - 1)) +
               (if change_occurred (df4 ! i) = 0 then 0
                else if direction (df4 ! i) = ''CW'' then step else - step)"
    by blast
  have row: "df5 ! i = direction_row.extend (df4 ! i) (angle_row.fields (as ! i))"
    if "i < length df4" for i
    using that len by (simp add: df5)
  have ang: "angle_deg (df5 ! i) = as ! i" if "i < length df4" for i
    by (simp add: row [OF that] row_defs)
  have "direction_row.truncate (df5 ! i) = df4 ! i \<and>
            angle_deg (df5 ! i) = (if i = 0 then 0 else angle_deg (df5 ! (i - 1))) +
              (if direction (df4 ! i) = ''CW'' then step
               else if direction (df4 ! i) = ''CCW'' then - step else 0) \<and>
            (change_occurred (df5 ! i) = 0 \<longrightarrow>
               angle_deg (df5 ! i) = (if i = 0 then 0 else angle_deg (df5 ! (i - 1))))"
    if i: "i < length df4" for i
  proof -
    have tr: "direction_row.truncate (df5 ! i) = df4 ! i"
      and ch: "change_occurred (df5 ! i) = change_occurred (df4 ! i)"
      by (simp_all add: row [OF i] row_defs)
    have prev: "(if i = 0 then 0 else angle_deg (df5 ! (i - 1))) = (if i = 0 then 0 else as ! (i - 1))"
      using ang [of "i - 1"] i by simp
    from cls i have c: "(change_occurred (df4 ! i) = 0 \<and> direction (df4 ! i) = '''') \<or>
           (change_occurred (df4 ! i) \<noteq> 0 \<and>
              (direction (df4 ! i) = ''CW'' \<or> direction (df4 ! i) = ''CCW''))"
      by blast
    from each i have e: "as ! i = (if i = 0 then 0 else as ! (i - 1)) +
               (if change_occurred (df4 ! i) = 0 then 0
                else if direction (df4 ! i) = ''CW'' then step else - step)"
      by blast
    have "as ! i = (if i = 0 then 0 else as ! (i - 1)) +
              (if direction (df4 ! i) = ''CW'' then step
               else if direction (df4 ! i) = ''CCW'' then - step else 0)"
      using c e by auto
    moreover have "change_occurred (df4 ! i) = 0 \<longrightarrow> as ! i = (if i = 0 then 0 else as ! (i - 1))"
      using e by simp
    ultimately show ?thesis
      unfolding tr ch prev ang [OF i] by simp
  qed
  note rows = this
  have len5: "length df5 = length df4" using len by (simp add: df5)
  have A: "\<forall>i<length df4. change_occurred (df4 ! i) \<noteq> 0 \<longrightarrow>
            direction (df4 ! i) = ''CW'' \<or> direction (df4 ! i) = ''CCW''"
    using cls by blast
  have B: "\<forall>i<length df5.
            direction_row.truncate (df5 ! i) = df4 ! i \<and>
            angle_deg (df5 ! i) = (if i = 0 then 0 else angle_deg (df5 ! (i - 1))) +
              (if direction (df4 ! i) = ''CW'' then step
               else if direction (df4 ! i) = ''CCW'' then - step else 0) \<and>
            (change_occurred (df5 ! i) = 0 \<longrightarrow>
               angle_deg (df5 ! i) = (if i = 0 then 0 else angle_deg (df5 ! (i - 1))))"
  proof (intro allI impI)
    fix i assume "i < length df5"
    then have "i < length df4" using len5 by simp
    then show "direction_row.truncate (df5 ! i) = df4 ! i \<and>
            angle_deg (df5 ! i) = (if i = 0 then 0 else angle_deg (df5 ! (i - 1))) +
              (if direction (df4 ! i) = ''CW'' then step
               else if direction (df4 ! i) = ''CCW'' then - step else 0) \<and>
            (change_occurred (df5 ! i) = 0 \<longrightarrow>
               angle_deg (df5 ! i) = (if i = 0 then 0 else angle_deg (df5 ! (i - 1))))"
      by (rule rows)
  qed
  from A out len5 B show ?thesis by blast
qed

text \<open>
  Claim C10. When the direction classifier returns, every sample with a code change has
  direction CW or CCW. So the integrator never reaches the branch that re-applies
  the last direction, nor the one that prints the diagnostic: its run over the
  classifier's frame prints nothing, each angle is the previous angle (0 before the
  first sample) plus or minus one step for CW or CCW and plus nothing otherwise, and a
  sample with no code change has the angle of its predecessor.
\<close>

theorem C10_fallback_unreachable:
  assumes "detect_direction_of_motion w df = (w1, Inr df4)"
    and "detect_change_in_angular_position step w1 df4 = (w2, df5)"
  shows "(\<forall>i<length df4. change_occurred (df4 ! i) \<noteq> 0 \<longrightarrow>
            direction (df4 ! i) = ''CW'' \<or> direction (df4 ! i) = ''CCW'') \<and>
         stdout w2 = stdout w1 \<and> length df5 = length df4 \<and>
         (\<forall>i<length df5.
            direction_row.truncate (df5 ! i) = df4 ! i \<and>
            angle_deg (df5 ! i) = (if i = 0 then 0 else angle_deg (df5 ! (i - 1))) +
              (if direction (df4 ! i) = ''CW'' then step
               else if direction (df4 ! i) = ''CCW'' then - step else 0) \<and>
            (change_occurred (df5 ! i) = 0 \<longrightarrow>
               angle_deg (df5 ! i) = (if i = 0 then 0 else angle_deg (df5 ! (i - 1)))))"
  using assms by (rule integrate_classified)

theorem C10_fallback_unreachable_witness:
  "stdout (fst (detect_change_in_angular_position 90
       (fst (detect_direction_of_motion fresh_world cw_then_hold_codes))
       (projr (snd (detect_direction_of_motion fresh_world cw_then_hold_codes))))) = [] \<and>
   map angle_deg (snd (detect_change_in_angular_position 90
       (fst (detect_direction_of_motion fresh_world cw_then_hold_codes))
       (projr (snd (detect_direction_of_motion fresh_world cw_then_hold_codes))))) = [0, 90, 90]"
proof -
  let ?c = "detect_direction_of_motion fresh_world cw_then_hold_codes"
  let ?i = "detect_change_in_angular_position 90 (fst ?c) (projr (snd ?c))"
  have run1: "?c = (fst ?c, Inr (projr (snd ?c)))"
    by code_simp
  have run2: "?i = (fst ?i, snd ?i)"
    by simp
  have "stdout (fst ?c) = []" by code_simp
  moreover have "map angle_deg (snd ?i) = [0, 90, 90]" by code_simp
  ultimately show ?thesis
    using C10_fallback_unreachable [OF run1 run2] by simp
qed

text \<open>
  Claim C2, amended. For every sample to which the classifier gives the direction
  UNCHANGED (the empty string), no code change occurred, and the integrator's step
  leaves its whole state as it is, whatever the last direction is (CW, CCW or
  undefined): it adds no step, subtracts none, prints no diagnostic and raises nothing;
  the sample's angle is the running angle.
\<close>

theorem C2_unchanged_holds_angle:
  assumes "detect_direction_of_motion w df = (w1, Inr df4)"
    and "i < length df4"
    and "direction (df4 ! i) = ''''"
  shows "change_occurred (df4 ! i) = 0 \<and>
         track_angular_change step u (df4 ! i) = (u, current_angle u)"
proof -
  from detect_direction_of_motion_classified [OF assms(1)] assms(2)
  have "(change_occurred (df4 ! i) = 0 \<and> direction (df4 ! i) = '''') \<or>
           (change_occurred (df4 ! i) \<noteq> 0 \<and>
              (direction (df4 ! i) = ''CW'' \<or> direction (df4 ! i) = ''CCW''))"
    by blast
  with assms(3) have "change_occurred (df4 ! i) = 0" by auto
  then show ?thesis by (simp add: track_angular_change_unchanged)
qed

theorem C2_unchanged_holds_angle_witness:
  "direction (projr (snd (detect_direction_of_motion fresh_world cw_then_hold_codes)) ! 2) = '''' \<and>
   track_angular_change 90
      \<lparr>current_direction = '''', last_direction = Some ''CW'', current_angle = 90, stdout = []\<rparr>
      (projr (snd (detect_direction_of_motion fresh_world cw_then_hold_codes)) ! 2)
     = (\<lparr>current_direction = '''', last_direction = Some ''CW'', current_angle = 90, stdout = []\<rparr>,
        90)"
proof -
  let ?c = "detect_direction_of_motion fresh_world cw_then_hold_codes"
  have run: "?c = (fst ?c, Inr (projr (snd ?c)))"
    by code_simp
  have i: "2 < length (projr (snd ?c))"
    by code_simp
  have d: "direction (projr (snd ?c) ! 2) = ''''"
    by code_simp
  from C2_unchanged_holds_angle [OF run i d, of 90
      "\<lparr>current_direction = '''', last_direction = Some ''CW'', current_angle = 90, stdout = []\<rparr>"]
    d show ?thesis by simp
qed

text \<open>
  The claim as stated fails on the capture (0,0), (0,1), (0,1) with step 90: the third
  sample is UNCHANGED after a CW step and keeps the angle 90 instead of 180, and the
  first sample is UNCHANGED while the last direction is undefined, yet the run returns
  and prints only the stable-origin report.
\<close>

theorem C2_unchanged_adds_step_counterexample:
  "(case annotate 90 fresh_world (read_csv cw_then_hold_capture) 1 of
      (w', Inr df) \<Rightarrow>
         map direction df = ['''', ''CW'', ''''] \<and>
         map angle_deg df = [0, 90, 90] \<and>
         angle_deg (df ! 2) \<noteq> angle_deg (df ! 1) + 90 \<and>
         stdout w' = [InitialPositions 0 0, FirstChange 1 1]
    | (w', Inl e) \<Rightarrow> False) \<and>
   track_angular_change 90
      \<lparr>current_direction = '''', last_direction = Some ''CW'', current_angle = 90, stdout = []\<rparr>
      \<lparr>idx = 2, timestamp = Finite 2, chan_a = 0, chan_b = 1, matches_initial_position = 0,
         timestamp_normalized_s = Finite 2, current_position_bitmask = ''01'',
         previous_position_bitmask = ''01'', change_occurred = 0, direction = ''''\<rparr>
     = (\<lparr>current_direction = '''', last_direction = Some ''CW'', current_angle = 90, stdout = []\<rparr>,
        90) \<and>
   track_angular_change 90
      \<lparr>current_direction = '''', last_direction = None, current_angle = 0, stdout = []\<rparr>
      \<lparr>idx = 0, timestamp = Finite 0, chan_a = 0, chan_b = 0, matches_initial_position = 1,
         timestamp_normalized_s = Finite 0, current_position_bitmask = ''00'',
         previous_position_bitmask = ''00'', change_occurred = 0, direction = ''''\<rparr>
     = (\<lparr>current_direction = '''', last_direction = None, current_angle = 0, stdout = []\<rparr>, 0)"
  by code_simp

subsection \<open>The stages before the classifier\<close>

lemma at_0_Inr_nonempty: "at_0 df = Inr r \<Longrightarrow> df \<noteq> []"
  by (auto simp: at_0_def)

lemma annotate_stages:
  assumes "annotate step w df period_s = (w', Inr df5)"
  obtains w1 df1 df2 df3 w2 df4 where
    "detect_initial_stable_angular_position w df period_s = (w1, Inr df1)"
    "normalize_timestamps df1 period_s = Inr df2"
    "generate_encoder_position_bitmask df2 = Inr df3"
    "detect_direction_of_motion w1 df3 = (w2, Inr df4)"
    "detect_change_in_angular_position step w2 df4 = (w', df5)"
  using assms
  by (auto simp: annotate_def annotate_from_origin_def split: prod.splits sum.splits)

lemma front_stages:
  assumes h: "idx (hd df) = 0"
    and s1: "detect_initial_stable_angular_position w df period_s = (w1, Inr df1)"
    and s2: "normalize_timestamps df1 period_s = Inr df2"
    and s3: "generate_encoder_position_bitmask df2 = Inr df3"
  shows "df \<noteq> [] \<and> length df3 = length df \<and>
    (\<forall>i<length df.
       idx (df3 ! i) = idx (df ! i) \<and>
       timestamp (df3 ! i) = timestamp (df ! i) \<and>
       chan_a (df3 ! i) = chan_a (df ! i) \<and>
       chan_b (df3 ! i) = chan_b (df ! i) \<and>
       timestamp_normalized_s (df3 ! i) = fsub (timestamp (df ! i)) (timestamp (df ! 0)) \<and>
       current_position_bitmask (df3 ! i) = bitmask (chan_a (df ! i)) (chan_b (df ! i)) \<and>
       previous_position_bitmask (df3 ! i) =
         (if i = 0 then bitmask (chan_a (df ! 0)) (chan_b (df ! 0))
          else bitmask (chan_a (df ! (i - 1))) (chan_b (df ! (i - 1)))))"
proof -
  from s1 have ne: "df \<noteq> []"
    by (auto simp: detect_initial_stable_angular_position_def at_0_def split: sum.splits)
  with h have a0: "at_0 df = Inr (hd df)" by (rule at_0_hd [rotated])
  from s1 a0 have df1: "df1 = map (\<lambda>r. capture_row.extend r
                       (origin_row.fields
                          (if chan_a r = chan_a (hd df) \<and> chan_b r = chan_b (hd df)
                           then 1 else 0))) df"
    by (auto simp: detect_initial_stable_angular_position_def Let_def)
  have ne1: "df1 \<noteq> []" and h1: "idx (hd df1) = 0"
    using ne h by (simp_all add: df1 hd_map row_defs)
  from s2 at_0_hd [OF ne1 h1] have df2: "df2 = map (\<lambda>r. origin_row.extend r
                        (normalized_row.fields (fsub (timestamp r) (timestamp (hd df1))))) df1"
    by (simp add: normalize_timestamps_def Let_def)
  have ne2: "df2 \<noteq> []" and h2: "idx (hd df2) = 0"
    using ne1 h1 by (simp_all add: df2 hd_map row_defs)
  from s3 at_0_hd [OF ne2 h2] have df3: "df3 = map (\<lambda>(r, sa, sb). normalized_row.extend r
                        (bitmask_row.fields (bitmask (chan_a r) (chan_b r)) (bitmask sa sb)))
                     (zip df2 (zip (shift (chan_a (hd df2)) (map chan_a df2))
                                   (shift (chan_b (hd df2)) (map chan_b df2))))"
    by (simp add: generate_encoder_position_bitmask_def Let_def)
  have len: "length df3 = length df"
    by (simp add: df3 df2 df1 length_shift)
  have "idx (df3 ! i) = idx (df ! i) \<and>
       timestamp (df3 ! i) = timestamp (df ! i) \<and>
       chan_a (df3 ! i) = chan_a (df ! i) \<and>
       chan_b (df3 ! i) = chan_b (df ! i) \<and>
       timestamp_normalized_s (df3 ! i) = fsub (timestamp (df ! i)) (timestamp (df ! 0)) \<and>
       current_position_bitmask (df3 ! i) = bitmask (chan_a (df ! i)) (chan_b (df ! i)) \<and>
       previous_position_bitmask (df3 ! i) =
         (if i = 0 then bitmask (chan_a (df ! 0)) (chan_b (df ! 0))
          else bitmask (chan_a (df ! (i - 1))) (chan_b (df ! (i - 1))))"
    if i: "i < length df" for i
    using i ne
    by (simp add: df3 df2 df1 length_shift shift_nth hd_map hd_conv_nth row_defs)
  with ne len show ?thesis by blast
qed

lemma direction_row_truncate_fields:
  "direction_row.truncate r' = r \<Longrightarrow>
     idx r' = idx r \<and> timestamp_normalized_s r' = timestamp_normalized_s r \<and>
     change_occurred r' = change_occurred r \<and> direction r' = direction r"
  by (auto simp: row_defs)

lemma detect_direction_of_motion_fields:
  assumes "detect_direction_of_motion w df = (w', Inr df')" and "i < length df"
  shows "idx (df' ! i) = idx (df ! i) \<and>
     timestamp_normalized_s (df' ! i) = timestamp_normalized_s (df ! i) \<and>
     change_occurred (df' ! i) =
       (if current_position_bitmask (df ! i) = previous_position_bitmask (df ! i) then 0 else 1)"
proof -
  from detect_direction_of_motion_Inr [OF assms(1), of w] assms(2)
  obtain d where "df' ! i = change_row.extend
          (bitmask_row.extend (df ! i) (change_row.fields
             (if current_position_bitmask (df ! i) = previous_position_bitmask (df ! i) then 0 else 1)))
          (direction_row.fields d)"
    by blast
  then show ?thesis by (simp add: row_defs)
qed

lemma annotate_rows:
  assumes run: "annotate step w df period_s = (w', Inr df5)"
    and h: "idx (hd df) = 0"
  shows "df \<noteq> [] \<and> length df5 = length df \<and>
    (\<forall>i<length df.
       idx (df5 ! i) = idx (df ! i) \<and>
       timestamp_normalized_s (df5 ! i) = fsub (timestamp (df ! i)) (timestamp (df ! 0)) \<and>
       angle_deg (df5 ! i) = (if i = 0 then 0 else angle_deg (df5 ! (i - 1))) +
              (if direction (df5 ! i) = ''CW'' then step
               else if direction (df5 ! i) = ''CCW'' then - step else 0) \<and>
       (change_occurred (df5 ! i) = 0 \<longleftrightarrow> direction (df5 ! i) = '''') \<and>
       (change_occurred (df5 ! i) = 0 \<longleftrightarrow>
          bitmask (chan_a (df ! i)) (chan_b (df ! i)) =
            (if i = 0 then bitmask (chan_a (df ! 0)) (chan_b (df ! 0))
             else bitmask (chan_a (df ! (i - 1))) (chan_b (df ! (i - 1))))))"
proof -
  from run obtain w1 df1 df2 df3 w2 df4 where
    s1: "detect_initial_stable_angular_position w df period_s = (w1, Inr df1)" and
    s2: "normalize_timestamps df1 period_s = Inr df2" and
    s3: "generate_encoder_position_bitmask df2 = Inr df3" and
    s4: "detect_direction_of_motion w1 df3 = (w2, Inr df4)" and
    s5: "detect_change_in_angular_position step w2 df4 = (w', df5)"
    by (rule annotate_stages)
  from front_stages [OF h s1 s2 s3]
  have ne: "df \<noteq> []" and len3: "length df3 = length df"
    and f: "\<forall>i<length df.
       idx (df3 ! i) = idx (df ! i) \<and>
       timestamp (df3 ! i) = timestamp (df ! i) \<and>
       chan_a (df3 ! i) = chan_a (df ! i) \<and>
       chan_b (df3 ! i) = chan_b (df ! i) \<and>
       timestamp_normalized_s (df3 ! i) = fsub (timestamp (df ! i)) (timestamp (df ! 0)) \<and>
       current_position_bitmask (df3 ! i) = bitmask (chan_a (df ! i)) (chan_b (df ! i)) \<and>
       previous_position_bitmask (df3 ! i) =
         (if i = 0 then bitmask (chan_a (df ! 0)) (chan_b (df ! 0))
          else bitmask (chan_a (df ! (i - 1))) (chan_b (df ! (i - 1))))"
    by simp_all
  from detect_direction_of_motion_Inr [OF s4, of w]
  have len4: "length df4 = length df3"
    by simp
  from detect_direction_of_motion_classified [OF s4]
  have cls: "\<forall>i<length df4.
           (change_occurred (df4 ! i) = 0 \<and> direction (df4 ! i) = '''') \<or>
           (change_occurred (df4 ! i) \<noteq> 0 \<and>
              (direction (df4 ! i) = ''CW'' \<or> direction (df4 ! i) = ''CCW''))" .
  from integrate_classified [OF s4 s5]
  have len5: "length df5 = length df4"
    and a: "\<forall>i<length df5.
            direction_row.truncate (df5 ! i) = df4 ! i \<and>
            angle_deg (df5 ! i) = (if i = 0 then 0 else angle_deg (df5 ! (i - 1))) +
              (if direction (df4 ! i) = ''CW'' then step
               else if direction (df4 ! i) = ''CCW'' then - step else 0)"
    by simp_all
  have "idx (df5 ! i) = idx (df ! i) \<and>
       timestamp_normalized_s (df5 ! i) = fsub (timestamp (df ! i)) (timestamp (df ! 0)) \<and>
       angle_deg (df5 ! i) = (if i = 0 then 0 else angle_deg (df5 ! (i - 1))) +
              (if direction (df5 ! i) = ''CW'' then step
               else if direction (df5 ! i) = ''CCW'' then - step else 0) \<and>
       (change_occurred (df5 ! i) = 0 \<longleftrightarrow> direction (df5 ! i) = '''') \<and>
       (change_occurred (df5 ! i) = 0 \<longleftrightarrow>
          bitmask (chan_a (df ! i)) (chan_b (df ! i)) =
            (if i = 0 then bitmask (chan_a (df ! 0)) (chan_b (df ! 0))
             else bitmask (chan_a (df ! (i - 1))) (chan_b (df ! (i - 1)))))"
    if i: "i < length df" for i
  proof -
    from i len3 len4 len5 have i3: "i < length df3" and i4: "i < length df4" and i5: "i < length df5"
      by simp_all
    from a i5 have tr: "direction_row.truncate (df5 ! i) = df4 ! i"
      and ang: "angle_deg (df5 ! i) = (if i = 0 then 0 else angle_deg (df5 ! (i - 1))) +
              (if direction (df4 ! i) = ''CW'' then step
               else if direction (df4 ! i) = ''CCW'' then - step else 0)"
      by simp_all
    note f5 = direction_row_truncate_fields [OF tr]
    note f4 = detect_direction_of_motion_fields [OF s4 i3]
    from f i have f3: "idx (df3 ! i) = idx (df ! i)"
      "timestamp_normalized_s (df3 ! i) = fsub (timestamp (df ! i)) (timestamp (df ! 0))"
      "current_position_bitmask (df3 ! i) = bitmask (chan_a (df ! i)) (chan_b (df ! i))"
      "previous_position_bitmask (df3 ! i) =
         (if i = 0 then bitmask (chan_a (df ! 0)) (chan_b (df ! 0))
          else bitmask (chan_a (df ! (i - 1))) (chan_b (df ! (i - 1))))"
      by simp_all
    from cls i4 have c: "(change_occurred (df4 ! i) = 0 \<and> direction (df4 ! i) = '''') \<or>
           (change_occurred (df4 ! i) \<noteq> 0 \<and>
              (direction (df4 ! i) = ''CW'' \<or> direction (df4 ! i) = ''CCW''))"
      by blast
    have "idx (df5 ! i) = idx (df ! i)"
      using f5 f4 f3 by simp
    moreover have "timestamp_normalized_s (df5 ! i) = fsub (timestamp (df ! i)) (timestamp (df ! 0))"
      using f5 f4 f3 by simp
    moreover have "angle_deg (df5 ! i) = (if i = 0 then 0 else angle_deg (df5 ! (i - 1))) +
              (if direction (df5 ! i) = ''CW'' then step
               else if direction (df5 ! i) = ''CCW'' then - step else 0)"
      using ang f5 by simp
    moreover have "change_occurred (df5 ! i) = 0 \<longleftrightarrow> direction (df5 ! i) = ''''"
      using c f5 by auto
    moreover have "change_occurred (df5 ! i) = 0 \<longleftrightarrow>
          bitmask (chan_a (df ! i)) (chan_b (df ! i)) =
            (if i = 0 then bitmask (chan_a (df ! 0)) (chan_b (df ! 0))
             else bitmask (chan_a (df ! (i - 1))) (chan_b (df ! (i - 1))))"
      using f5 f4 f3 by simp
    ultimately show ?thesis by blast
  qed
  moreover have "length df5 = length df" using len3 len4 len5 by simp
  ultimately show ?thesis using ne by blast
qed

subsection \<open>The angular velocity estimator and the first sample\<close>

lemma fsub_self: "fsub (Finite t) (Finite t) = Finite 0"
  by simp

lemma track_angular_velocity_Inr:
  "track_angular_velocity a pa t pt =
     Inr (case fsub t pt of
            Finite d \<Rightarrow> Finite (if d = 0 then 0 else (a - pa) / d)
          | PosInf \<Rightarrow> Finite 0
          | NegInf \<Rightarrow> Finite 0
          | NaN \<Rightarrow> NaN)"
  by (cases "fsub t pt") (simp_all add: track_angular_velocity_def float_ne_def)

lemma apply_track_angular_velocity_Inr:
  "apply_track_angular_velocity xs =
     Inr (map (\<lambda>(r, pa, pt).
            case fsub (timestamp_normalized_s r) pt of
              Finite d \<Rightarrow> Finite (if d = 0 then 0 else (angle_deg r - pa) / d)
            | PosInf \<Rightarrow> Finite 0
            | NegInf \<Rightarrow> Finite 0
            | NaN \<Rightarrow> NaN) xs)"
  by (induction xs rule: apply_track_angular_velocity.induct)
     (simp_all add: track_angular_velocity_Inr)

lemma detect_angular_velocity_rows:
  assumes "df \<noteq> []" and "idx (hd df) = 0"
  shows "\<exists>out. detect_angular_velocity df = Inr out \<and> length out = length df \<and>
    (\<forall>i<length df.
       angle_row.truncate (out ! i) = df ! i \<and>
       velocity_deg_per_s (out ! i) =
         (case fsub (timestamp_normalized_s (df ! i))
                    (timestamp_normalized_s (df ! (if i = 0 then 0 else i - 1))) of
            Finite d \<Rightarrow>
              Finite (if d = 0 then 0
                      else (angle_deg (df ! i) - angle_deg (df ! (if i = 0 then 0 else i - 1))) / d)
          | PosInf \<Rightarrow> Finite 0
          | NegInf \<Rightarrow> Finite 0
          | NaN \<Rightarrow> NaN))"
  using assms
  by (simp add: detect_angular_velocity_def at_0_hd Let_def apply_track_angular_velocity_Inr
      length_shift shift_nth hd_conv_nth row_defs cong: pyfloat.case_cong if_cong)

lemma detect_angular_velocity_no_row_0:
  assumes "\<forall>r\<in>set df. idx r \<noteq> 0"
  shows "detect_angular_velocity df = Inl KeyError"
proof -
  from assms have "find (\<lambda>r. idx r = 0) df = None"
    by (auto simp: find_None_iff)
  then show ?thesis
    by (simp add: detect_angular_velocity_def at_0_def)
qed

lemma annotate_Nil: "annotate step w [] period_s = (w, Inl KeyError)"
  by (simp add: annotate_def detect_initial_stable_angular_position_def at_0_Nil)

lemma read_csv_hd: "samples \<noteq> [] \<Longrightarrow> idx (hd (read_csv samples)) = 0"
  by (cases samples) (auto simp: read_csv_def)

lemma read_csv_Nil: "read_csv [] = []"
  by (simp add: read_csv_def)

lemma length_read_csv: "length (read_csv samples) = length samples"
  by (simp add: read_csv_def read_csv_from_length)

lemma read_csv_nth:
  "i < length samples \<Longrightarrow> read_csv samples ! i =
     \<lparr>idx = i, timestamp = fst (samples ! i), chan_a = fst (snd (samples ! i)),
        chan_b = snd (snd (samples ! i))\<rparr>"
  by (simp add: read_csv_def read_csv_from_nth)

lemma angle_row_truncate_fields:
  "angle_row.truncate r' = r \<Longrightarrow>
     idx r' = idx r \<and> timestamp_normalized_s r' = timestamp_normalized_s r \<and>
     change_occurred r' = change_occurred r \<and> direction r' = direction r \<and>
     angle_deg r' = angle_deg r"
  by (auto simp: row_defs)

lemma annotate_read_csv_rows:
  assumes run: "annotate step w (read_csv samples) period_s = (w', Inr df5)"
  shows "samples \<noteq> [] \<and> length df5 = length samples \<and>
    (\<forall>i<length samples.
       idx (df5 ! i) = i \<and>
       timestamp_normalized_s (df5 ! i) = fsub (fst (samples ! i)) (fst (samples ! 0)) \<and>
       angle_deg (df5 ! i) = (if i = 0 then 0 else angle_deg (df5 ! (i - 1))) +
              (if direction (df5 ! i) = ''CW'' then step
               else if direction (df5 ! i) = ''CCW'' then - step else 0) \<and>
       (change_occurred (df5 ! i) = 0 \<longleftrightarrow> direction (df5 ! i) = '''') \<and>
       (i = 0 \<longrightarrow> change_occurred (df5 ! i) = 0))"
proof -
  have ne: "samples \<noteq> []"
    using run by (auto simp: read_csv_Nil annotate_Nil)
  from annotate_rows [OF run read_csv_hd [OF ne]]
  have len: "length df5 = length (read_csv samples)"
    and rows: "\<forall>i<length (read_csv samples).
       idx (df5 ! i) = idx (read_csv samples ! i) \<and>
       timestamp_normalized_s (df5 ! i) =
         fsub (timestamp (read_csv samples ! i)) (timestamp (read_csv samples ! 0)) \<and>
       angle_deg (df5 ! i) = (if i = 0 then 0 else angle_deg (df5 ! (i - 1))) +
              (if direction (df5 ! i) = ''CW'' then step
               else if direction (df5 ! i) = ''CCW'' then - step else 0) \<and>
       (change_occurred (df5 ! i) = 0 \<longleftrightarrow> direction (df5 ! i) = '''') \<and>
       (change_occurred (df5 ! i) = 0 \<longleftrightarrow>
          bitmask (chan_a (read_csv samples ! i)) (chan_b (read_csv samples ! i)) =
            (if i = 0 then bitmask (chan_a (read_csv samples ! 0)) (chan_b (read_csv samples ! 0))
             else bitmask (chan_a (read_csv samples ! (i - 1))) (chan_b (read_csv samples ! (i - 1)))))"
    by blast+
  have "idx (df5 ! i) = i \<and>
       timestamp_normalized_s (df5 ! i) = fsub (fst (samples ! i)) (fst (samples ! 0)) \<and>
       angle_deg (df5 ! i) = (if i = 0 then 0 else angle_deg (df5 ! (i - 1))) +
              (if direction (df5 ! i) = ''CW'' then step
               else if direction (df5 ! i) = ''CCW'' then - step else 0) \<and>
       (change_occurred (df5 ! i) = 0 \<longleftrightarrow> direction (df5 ! i) = '''') \<and>
       (i = 0 \<longrightarrow> change_occurred (df5 ! i) = 0)"
    if i: "i < length samples" for i
  proof -
    from i ne have i': "i < length (read_csv samples)" and z: "0 < length samples"
      by (simp_all add: length_read_csv)
    from rows [rule_format, OF i'] show ?thesis
      using i z by (auto simp: read_csv_nth)
  qed
  with ne len show ?thesis by (simp add: length_read_csv)
qed

lemma annotate_first_row:
  assumes run: "annotate step w (read_csv samples) period_s = (w', Inr df5)"
  shows "samples \<noteq> [] \<and> df5 \<noteq> [] \<and> idx (hd df5) = 0 \<and> change_occurred (hd df5) = 0 \<and>
         timestamp_normalized_s (hd df5) = fsub (fst (hd samples)) (fst (hd samples)) \<and>
         angle_deg (hd df5) = 0"
proof -
  from annotate_read_csv_rows [OF run]
  have ne: "samples \<noteq> []" and len: "length df5 = length samples"
    and rows: "\<forall>i<length samples.
       idx (df5 ! i) = i \<and>
       timestamp_normalized_s (df5 ! i) = fsub (fst (samples ! i)) (fst (samples ! 0)) \<and>
       angle_deg (df5 ! i) = (if i = 0 then 0 else angle_deg (df5 ! (i - 1))) +
              (if direction (df5 ! i) = ''CW'' then step
               else if direction (df5 ! i) = ''CCW'' then - step else 0) \<and>
       (change_occurred (df5 ! i) = 0 \<longleftrightarrow> direction (df5 ! i) = '''') \<and>
       (i = 0 \<longrightarrow> change_occurred (df5 ! i) = 0)"
    by blast+
  from ne have pos: "0 < length samples" by simp
  with len have ne5: "df5 \<noteq> []" by auto
  from rows [rule_format, OF pos]
  have r0: "idx (df5 ! 0) = 0"
    "timestamp_normalized_s (df5 ! 0) = fsub (fst (samples ! 0)) (fst (samples ! 0))"
    "change_occurred (df5 ! 0) = 0"
    "direction (df5 ! 0) = ''''"
    "angle_deg (df5 ! 0) = 0"
    by auto
  then show ?thesis
    using ne ne5 by (simp add: hd_conv_nth)
qed

lemma trim_keeps_first_row:
  assumes "df \<noteq> []" and "change_occurred (hd df) = 0"
  shows "trim_redundant_data_points df \<noteq> [] \<and> hd (trim_redundant_data_points df) = hd df"
  using assms by (cases df) (simp_all add: trim_redundant_data_points_def)

lemma pipeline_after_annotate:
  assumes run: "annotate step w (read_csv samples) period_s = (w', Inr df5)"
  shows "\<exists>out. pipeline step w (read_csv samples) period_s = (w', Inr out) \<and>
     out \<noteq> [] \<and> length out = length (trim_redundant_data_points df5) \<and>
     angle_row.truncate (hd out) = hd df5 \<and>
     (\<forall>i<length out. angle_row.truncate (out ! i) = trim_redundant_data_points df5 ! i)"
proof -
  let ?t = "trim_redundant_data_points df5"
  from annotate_first_row [OF run]
  have ne5: "df5 \<noteq> []" and i0: "idx (hd df5) = 0" and c0: "change_occurred (hd df5) = 0"
    by simp_all
  from trim_keeps_first_row [OF ne5 c0] have net: "?t \<noteq> []" and hdt: "hd ?t = hd df5"
    by simp_all
  from detect_angular_velocity_rows [OF net] hdt i0
  obtain out where v: "detect_angular_velocity ?t = Inr out" and len: "length out = length ?t"
    and rows: "\<forall>i<length ?t. angle_row.truncate (out ! i) = ?t ! i"
    by auto
  have p: "pipeline step w (read_csv samples) period_s = (w', Inr out)"
    using run v by (simp add: pipeline_def)
  have neo: "out \<noteq> []" using net len by auto
  have "angle_row.truncate (hd out) = hd df5"
    using rows neo net hdt len by (simp add: hd_conv_nth)
  with p neo len rows show ?thesis by auto
qed

lemma changed_samples_have_no_row_0:
  assumes run: "annotate step w (read_csv samples) period_s = (w', Inr df5)"
  shows "detect_angular_velocity (filter (\<lambda>r. change_occurred r \<noteq> 0) df5) = Inl KeyError"
proof -
  from annotate_read_csv_rows [OF run]
  have len: "length df5 = length samples"
    and rows: "\<forall>i<length samples. idx (df5 ! i) = i \<and> (i = 0 \<longrightarrow> change_occurred (df5 ! i) = 0)"
    by blast+
  have "\<forall>r\<in>set (filter (\<lambda>r. change_occurred r \<noteq> 0) df5). idx r \<noteq> 0"
  proof
    fix r assume "r \<in> set (filter (\<lambda>r. change_occurred r \<noteq> 0) df5)"
    then have r: "r \<in> set df5" and ch: "change_occurred r \<noteq> 0" by simp_all
    from r obtain i where i: "i < length df5" and ri: "r = df5 ! i"
      by (auto simp: in_set_conv_nth)
    from i len have "i < length samples" by simp
    from rows [rule_format, OF this]
    have lab: "idx (df5 ! i) = i" and first: "i = 0 \<longrightarrow> change_occurred (df5 ! i) = 0"
      by blast+
    show "idx r \<noteq> 0"
    proof
      assume "idx r = 0"
      with ri lab have "i = 0" by simp
      with first have "change_occurred (df5 ! i) = 0" by blast
      with ch ri show False by simp
    qed
  qed
  then show ?thesis by (rule detect_angular_velocity_no_row_0)
qed

text \<open>
  Claim C7. The trimmed sequence the claim means holds the samples whose code changed.
  The estimator reads the row labelled 0, and that row never has a code change: on
  every loaded capture on which the stages up to the integrator return, the estimator
  raises a KeyError when it is given the samples whose code changed. What the
  pipeline returns instead are velocities of the samples with no code change, which
  are the rows its trimmer keeps.
\<close>

theorem C7_estimator_raises_on_changed_samples:
  assumes "annotate step w (read_csv samples) period_s = (w', Inr df5)"
  shows "detect_angular_velocity (filter (\<lambda>r. change_occurred r \<noteq> 0) df5) = Inl KeyError \<and>
     (\<exists>out. pipeline step w (read_csv samples) period_s = (w', Inr out) \<and>
        (\<forall>i<length out. change_occurred (out ! i) = 0))"
proof -
  let ?t = "trim_redundant_data_points df5"
  from pipeline_after_annotate [OF assms]
  obtain out where p: "pipeline step w (read_csv samples) period_s = (w', Inr out)"
    and len: "length out = length ?t"
    and rows: "\<forall>i<length out. angle_row.truncate (out ! i) = ?t ! i"
    by blast
  have "change_occurred (out ! i) = 0" if i: "i < length out" for i
  proof -
    from rows i have tr: "angle_row.truncate (out ! i) = ?t ! i" by blast
    from i len have "?t ! i \<in> set ?t" by simp
    then have "change_occurred (?t ! i) = 0"
      by (simp add: trim_redundant_data_points_def)
    with angle_row_truncate_fields [OF tr] show ?thesis by simp
  qed
  with p changed_samples_have_no_row_0 [OF assms] show ?thesis by blast
qed

theorem C7_estimator_raises_on_changed_samples_witness:
  "map idx (filter (\<lambda>r. change_occurred r \<noteq> 0)
      (projr (snd (annotate (360 / 4) fresh_world (read_csv scenario) 1)))) = [2, 3, 4, 5] \<and>
   detect_angular_velocity (filter (\<lambda>r. change_occurred r \<noteq> 0)
      (projr (snd (annotate (360 / 4) fresh_world (read_csv scenario) 1)))) = Inl KeyError \<and>
   (\<exists>out. pipeline (360 / 4) fresh_world (read_csv scenario) 1 =
       (fst (annotate (360 / 4) fresh_world (read_csv scenario) 1), Inr out) \<and>
      map idx out = [0, 1] \<and> map change_occurred out = [0, 0] \<and>
      map velocity_deg_per_s out = [Finite 0, Finite 0])"
proof -
  let ?a = "annotate (360 / 4) fresh_world (read_csv scenario) 1"
  let ?p = "pipeline (360 / 4) fresh_world (read_csv scenario) 1"
  have run: "?a = (fst ?a, Inr (projr (snd ?a)))"
    by code_simp
  from C7_estimator_raises_on_changed_samples [OF run]
  obtain out where
    raises: "detect_angular_velocity (filter (\<lambda>r. change_occurred r \<noteq> 0) (projr (snd ?a))) =
       Inl KeyError"
    and p: "?p = (fst ?a, Inr out)"
    by blast
  then have out: "out = projr (snd ?p)" by simp
  have "map idx (projr (snd ?p)) = [0, 1] \<and> map change_occurred (projr (snd ?p)) = [0, 0] \<and>
      map velocity_deg_per_s (projr (snd ?p)) = [Finite 0, Finite 0]"
    by code_simp
  then have vals: "map idx out = [0, 1] \<and> map change_occurred out = [0, 0] \<and>
      map velocity_deg_per_s out = [Finite 0, Finite 0]"
    unfolding out .
  have changed: "map idx (filter (\<lambda>r. change_occurred r \<noteq> 0) (projr (snd ?a))) = [2, 3, 4, 5]"
    by code_simp
  from p vals have "\<exists>out. ?p = (fst ?a, Inr out) \<and>
      map idx out = [0, 1] \<and> map change_occurred out = [0, 0] \<and>
      map velocity_deg_per_s out = [Finite 0, Finite 0]"
    by (intro exI [of _ out]) simp
  with changed raises show ?thesis by blast
qed

text \<open>
  Claim C8, amended. Whenever the pipeline runs through on a loaded capture whose first
  timestamp is a finite number, the capture is not empty and the first sample has
  normalized timestamp 0 and angle 0, in the annotated frame and in the frame the
  pipeline returns.
\<close>

theorem C8_first_sample_zero:
  assumes "annotate step w (read_csv samples) period_s = (w', Inr df5)"
    and "fst (hd samples) = Finite t"
  shows "samples \<noteq> [] \<and> df5 \<noteq> [] \<and>
     timestamp_normalized_s (hd df5) = Finite 0 \<and> angle_deg (hd df5) = 0 \<and>
     (\<exists>out. pipeline step w (read_csv samples) period_s = (w', Inr out) \<and> out \<noteq> [] \<and>
        timestamp_normalized_s (hd out) = Finite 0 \<and> angle_deg (hd out) = 0)"
proof -
  from annotate_first_row [OF assms(1)] assms(2)
  have first: "samples \<noteq> []" "df5 \<noteq> []" "timestamp_normalized_s (hd df5) = Finite 0"
    "angle_deg (hd df5) = 0"
    by simp_all
  from pipeline_after_annotate [OF assms(1)]
  obtain out where p: "pipeline step w (read_csv samples) period_s = (w', Inr out)"
    and neo: "out \<noteq> []" and tr: "angle_row.truncate (hd out) = hd df5"
    by blast
  from angle_row_truncate_fields [OF tr] first(3,4)
  have "timestamp_normalized_s (hd out) = Finite 0" "angle_deg (hd out) = 0"
    by simp_all
  with p neo first show ?thesis by blast
qed

theorem C8_first_sample_zero_witness:
  "fst (hd scenario) = Finite 0 \<and>
   timestamp_normalized_s (hd (projr (snd (annotate 90 fresh_world (read_csv scenario) 1)))) =
     Finite 0 \<and>
   angle_deg (hd (projr (snd (annotate 90 fresh_world (read_csv scenario) 1)))) = 0 \<and>
   length (projr (snd (annotate 90 fresh_world (read_csv scenario) 1))) = 6"
proof -
  let ?a = "annotate 90 fresh_world (read_csv scenario) 1"
  have run: "?a = (fst ?a, Inr (projr (snd ?a)))"
    by code_simp
  have fin: "fst (hd scenario) = Finite 0"
    by (simp add: scenario_def)
  have "length (projr (snd ?a)) = 6"
    by code_simp
  with C8_first_sample_zero [OF run fin] fin show ?thesis by simp
qed

text \<open>
  The claim as stated fails on a capture whose first timestamp parses to \<^verbatim>\<open>inf\<close>:
  nothing raises, and the first normalized timestamp is \<^verbatim>\<open>inf - inf\<close>, which is NaN
  and not 0.
\<close>

theorem C8_infinite_first_timestamp_counterexample:
  "(case annotate 90 fresh_world (read_csv overflowing_capture) 1 of
      (w', Inr df) \<Rightarrow>
         timestamp (hd df) = PosInf \<and>
         timestamp_normalized_s (hd df) = NaN \<and>
         float_ne (timestamp_normalized_s (hd df)) (Finite 0) \<and>
         angle_deg (hd df) = 0
    | (w', Inl e) \<Rightarrow> False)"
  by code_simp

subsection \<open>Runs do not depend on what earlier runs left behind\<close>

lemma detect_initial_snd_indep:
  "snd (detect_initial_stable_angular_position w df period_s) =
   snd (detect_initial_stable_angular_position v df period_s)"
  by (simp add: detect_initial_stable_angular_position_def Let_def split: sum.splits)

lemma apply_check_direction_snd_indep:
  "snd (apply_check_direction w rs) = snd (apply_check_direction v rs)"
proof (induction rs arbitrary: w v)
  case Nil
  then show ?case by simp
next
  case (Cons r rs)
  obtain w1 res where sw: "check_direction w r = (w1, res)" by (cases "check_direction w r")
  obtain v1 res' where sv: "check_direction v r = (v1, res')" by (cases "check_direction v r")
  from check_direction_snd_indep [of w r v] sw sv have same: "res' = res" by simp
  show ?case
  proof (cases res)
    case (Inl e)
    with sw sv same show ?thesis by simp
  next
    case (Inr d)
    obtain w2 r2 where aw: "apply_check_direction w1 rs = (w2, r2)"
      by (cases "apply_check_direction w1 rs")
    obtain v2 r2' where av: "apply_check_direction v1 rs = (v2, r2')"
      by (cases "apply_check_direction v1 rs")
    from Cons.IH [of w1 v1] aw av have "r2' = r2" by simp
    with sw sv same Inr aw av show ?thesis by (cases r2) simp_all
  qed
qed

lemma detect_direction_of_motion_snd_indep:
  "snd (detect_direction_of_motion w df) = snd (detect_direction_of_motion v df)"
proof -
  let ?df = "map (\<lambda>r. bitmask_row.extend r
                  (change_row.fields
                     (if current_position_bitmask r = previous_position_bitmask r then 0 else 1))) df"
  obtain w2 r2 where aw: "apply_check_direction (w\<lparr>current_direction := ''''\<rparr>) ?df = (w2, r2)"
    by (cases "apply_check_direction (w\<lparr>current_direction := ''''\<rparr>) ?df")
  obtain v2 r2' where av: "apply_check_direction (v\<lparr>current_direction := ''''\<rparr>) ?df = (v2, r2')"
    by (cases "apply_check_direction (v\<lparr>current_direction := ''''\<rparr>) ?df")
  from apply_check_direction_snd_indep [of "w\<lparr>current_direction := ''''\<rparr>" ?df
      "v\<lparr>current_direction := ''''\<rparr>"] aw av
  have "r2' = r2" by simp
  with aw av show ?thesis
    by (cases r2) (simp_all add: detect_direction_of_motion_def Let_def)
qed

lemma track_angular_change_agree:
  assumes "last_direction w = last_direction v" and "current_angle w = current_angle v"
  shows "snd (track_angular_change step w r) = snd (track_angular_change step v r) \<and>
         last_direction (fst (track_angular_change step w r)) =
           last_direction (fst (track_angular_change step v r)) \<and>
         current_angle (fst (track_angular_change step w r)) =
           current_angle (fst (track_angular_change step v r))"
  using assms by (simp add: track_angular_change_def Let_def)

lemma apply_track_angular_change_agree:
  assumes "last_direction w = last_direction v" and "current_angle w = current_angle v"
  shows "snd (apply_track_angular_change step w rs) = snd (apply_track_angular_change step v rs)"
  using assms
proof (induction rs arbitrary: w v)
  case Nil
  then show ?case by simp
next
  case (Cons r rs)
  obtain w1 a where sw: "track_angular_change step w r = (w1, a)"
    by (cases "track_angular_change step w r")
  obtain v1 a' where sv: "track_angular_change step v r = (v1, a')"
    by (cases "track_angular_change step v r")
  from track_angular_change_agree [OF Cons.prems, of step r] sw sv
  have same: "a' = a" and l: "last_direction w1 = last_direction v1"
    and c: "current_angle w1 = current_angle v1"
    by simp_all
  from Cons.IH [OF l c] sw sv same show ?case
    by (auto split: prod.splits)
qed

lemma detect_change_in_angular_position_snd_indep:
  "snd (detect_change_in_angular_position step w df) =
   snd (detect_change_in_angular_position step v df)"
  using apply_track_angular_change_agree
    [of "w\<lparr>last_direction := None, current_angle := 0\<rparr>"
        "v\<lparr>last_direction := None, current_angle := 0\<rparr>" step df]
  by (auto simp: detect_change_in_angular_position_def Let_def split: prod.splits)

lemma detect_change_in_angular_position_reset:
  "current_angle (fst (detect_change_in_angular_position step w df)) = 0 \<and>
   last_direction (fst (detect_change_in_angular_position step w df)) = None"
  by (simp add: detect_change_in_angular_position_def Let_def split: prod.splits)

lemma annotate_from_origin_snd_indep:
  "snd (annotate_from_origin step w df period_s) = snd (annotate_from_origin step v df period_s)"
proof (cases "normalize_timestamps df period_s")
  case (Inl e)
  then show ?thesis by (simp add: annotate_from_origin_def)
next
  case df2: (Inr df2)
  show ?thesis
  proof (cases "generate_encoder_position_bitmask df2")
    case (Inl e)
    with df2 show ?thesis by (simp add: annotate_from_origin_def)
  next
    case df3: (Inr df3)
    obtain w2 r where cw: "detect_direction_of_motion w df3 = (w2, r)"
      by (cases "detect_direction_of_motion w df3")
    obtain v2 r' where cv: "detect_direction_of_motion v df3 = (v2, r')"
      by (cases "detect_direction_of_motion v df3")
    from detect_direction_of_motion_snd_indep [of w df3 v] cw cv have same: "r' = r" by simp
    show ?thesis
    proof (cases r)
      case (Inl e)
      with df2 df3 cw cv same show ?thesis by (simp add: annotate_from_origin_def)
    next
      case (Inr df4)
      with df2 df3 cw cv same detect_change_in_angular_position_snd_indep [of step w2 df4 v2]
      show ?thesis
        by (auto simp: annotate_from_origin_def split: prod.splits)
    qed
  qed
qed

lemma annotate_snd_indep:
  "snd (annotate step w df period_s) = snd (annotate step v df period_s)"
proof -
  obtain w1 r where dw: "detect_initial_stable_angular_position w df period_s = (w1, r)"
    by (cases "detect_initial_stable_angular_position w df period_s")
  obtain v1 r' where dv: "detect_initial_stable_angular_position v df period_s = (v1, r')"
    by (cases "detect_initial_stable_angular_position v df period_s")
  from detect_initial_snd_indep [of w df period_s v] dw dv have same: "r' = r" by simp
  show ?thesis
  proof (cases r)
    case (Inl e)
    with dw dv same show ?thesis by (simp add: annotate_def)
  next
    case (Inr df1)
    with dw dv same annotate_from_origin_snd_indep [of step w1 df1 period_s v1]
    show ?thesis by (simp add: annotate_def)
  qed
qed

lemma pipeline_snd_indep:
  "snd (pipeline step w df period_s) = snd (pipeline step v df period_s)"
proof -
  obtain w1 r where aw: "annotate step w df period_s = (w1, r)"
    by (cases "annotate step w df period_s")
  obtain v1 r' where av: "annotate step v df period_s = (v1, r')"
    by (cases "annotate step v df period_s")
  from annotate_snd_indep [of step w df period_s v] aw av have "r' = r" by simp
  with aw av show ?thesis by (cases r) (simp_all add: pipeline_def)
qed

text \<open>
  Claim C5. The frames a run of the pipeline returns (or the error it raises) do not
  depend on the world it starts in: not on the attributes \<open>current_direction\<close>,
  \<open>last_direction\<close> and \<open>current_angle\<close>, nor on what was printed before. In
  particular a second run on the same input, started in the world the first run
  left, returns what the first run returned.
\<close>

theorem C5_rerun_identical:
  "snd (pipeline step w1 df period_s) = snd (pipeline step w2 df period_s) \<and>
   snd (annotate step w1 df period_s) = snd (annotate step w2 df period_s) \<and>
   snd (pipeline step (fst (pipeline step w1 df period_s)) df period_s) =
     snd (pipeline step w1 df period_s) \<and>
   snd (main_pipeline (fst (main_pipeline w1 samples period_s)) samples period_s) =
     snd (main_pipeline w1 samples period_s)"
  using pipeline_snd_indep [of step w1 df period_s w2]
    annotate_snd_indep [of step w1 df period_s w2]
    pipeline_snd_indep [of step "fst (pipeline step w1 df period_s)" df period_s w1]
    pipeline_snd_indep [of ENCODER_POSITION_STEP_SIZE_DEG
      "fst (main_pipeline w1 samples period_s)" "read_csv samples" period_s w1]
  by (simp add: main_pipeline_def)

subsection \<open>The stable-origin detector\<close>

lemma find_idx_update:
  "find (\<lambda>r. idx r = 0) (map (matches_initial_position_update f) df) =
   map_option (matches_initial_position_update f) (find (\<lambda>r. idx r = 0) df)"
  by (induction df) simp_all

lemma at_0_update:
  "at_0 (map (matches_initial_position_update f) df) =
   map_sum id (matches_initial_position_update f) (at_0 df)"
  by (simp add: at_0_def find_idx_update split: option.splits)

lemma normalize_timestamps_update:
  "normalize_timestamps (map (matches_initial_position_update f) df) period_s =
   map_sum id (map (matches_initial_position_update f)) (normalize_timestamps df period_s)"
  by (cases "at_0 df")
     (simp_all add: normalize_timestamps_def at_0_update Let_def row_defs comp_def)

lemma generate_encoder_position_bitmask_update:
  "generate_encoder_position_bitmask (map (matches_initial_position_update f) df) =
   map_sum id (map (matches_initial_position_update f)) (generate_encoder_position_bitmask df)"
  by (cases "at_0 df")
     (simp_all add: generate_encoder_position_bitmask_def at_0_update Let_def row_defs comp_def
        zip_map1 split_def)

lemma check_direction_update:
  "check_direction w (matches_initial_position_update f r) = check_direction w r"
  by (auto simp: check_direction_def Let_def split: sum.splits)

lemma apply_check_direction_update:
  "apply_check_direction w (map (matches_initial_position_update f) rs) =
   apply_check_direction w rs"
  by (induction rs arbitrary: w) (simp_all add: check_direction_update)

lemma detect_direction_of_motion_update:
  "detect_direction_of_motion w (map (matches_initial_position_update f) df) =
   apsnd (map_sum id (map (matches_initial_position_update f))) (detect_direction_of_motion w df)"
proof -
  let ?c = "\<lambda>r. bitmask_row.extend r
                  (change_row.fields
                     (if current_position_bitmask r = previous_position_bitmask r then 0 else 1))"
  have m: "map ?c (map (matches_initial_position_update f) df) =
           map (matches_initial_position_update f) (map ?c df)"
    by (simp add: row_defs)
  obtain w2 r where a: "apply_check_direction (w\<lparr>current_direction := ''''\<rparr>) (map ?c df) = (w2, r)"
    by (cases "apply_check_direction (w\<lparr>current_direction := ''''\<rparr>) (map ?c df)")
  show ?thesis
    unfolding detect_direction_of_motion_def Let_def m apply_check_direction_update a
    by (cases r) (simp_all add: zip_map1 split_def row_defs comp_def)
qed

lemma track_angular_change_update:
  "track_angular_change step w (matches_initial_position_update f r) = track_angular_change step w r"
  by (auto simp: track_angular_change_def Let_def)

lemma apply_track_angular_change_update:
  "apply_track_angular_change step w (map (matches_initial_position_update f) rs) =
   apply_track_angular_change step w rs"
  by (induction rs arbitrary: w) (simp_all add: track_angular_change_update)

lemma detect_change_in_angular_position_update:
  "detect_change_in_angular_position step w (map (matches_initial_position_update f) df) =
   apsnd (map (matches_initial_position_update f)) (detect_change_in_angular_position step w df)"
  by (simp add: detect_change_in_angular_position_def Let_def apply_track_angular_change_update
      zip_map1 split_def row_defs comp_def split: prod.splits)

lemma trim_redundant_data_points_update:
  "trim_redundant_data_points (map (matches_initial_position_update f) df) =
   map (matches_initial_position_update f) (trim_redundant_data_points df)"
  by (simp add: trim_redundant_data_points_def filter_map comp_def)

lemma detect_angular_velocity_update:
  "detect_angular_velocity (map (matches_initial_position_update f) df) =
   map_sum id (map (matches_initial_position_update f)) (detect_angular_velocity df)"
  by (cases "at_0 df")
     (simp_all add: detect_angular_velocity_def at_0_update Let_def comp_def
        apply_track_angular_velocity_Inr zip_map1 split_def row_defs
        cong: if_cong pyfloat.case_cong)

lemma annotate_from_origin_update:
  "annotate_from_origin step w (map (matches_initial_position_update f) df) period_s =
   apsnd (map_sum id (map (matches_initial_position_update f)))
     (annotate_from_origin step w df period_s)"
proof (cases "normalize_timestamps df period_s")
  case (Inl e)
  then show ?thesis by (simp add: annotate_from_origin_def normalize_timestamps_update)
next
  case df2: (Inr df2)
  show ?thesis
  proof (cases "generate_encoder_position_bitmask df2")
    case (Inl e)
    with df2 show ?thesis
      by (simp add: annotate_from_origin_def normalize_timestamps_update
          generate_encoder_position_bitmask_update)
  next
    case df3: (Inr df3)
    obtain w2 r where c: "detect_direction_of_motion w df3 = (w2, r)"
      by (cases "detect_direction_of_motion w df3")
    show ?thesis
    proof (cases r)
      case (Inl e)
      with df2 df3 c show ?thesis
        by (simp add: annotate_from_origin_def normalize_timestamps_update
            generate_encoder_position_bitmask_update detect_direction_of_motion_update)
    next
      case (Inr df4)
      with df2 df3 c show ?thesis
        by (simp add: annotate_from_origin_def normalize_timestamps_update
            generate_encoder_position_bitmask_update detect_direction_of_motion_update
            detect_change_in_angular_position_update split: prod.splits)
    qed
  qed
qed

lemma idxmax_first:
  assumes ne: "df \<noteq> []" and lab: "\<forall>i<length df. idx (df ! i) = i"
  shows "(if \<exists>j<length df. D (df ! j)
          then idxmax (map (\<lambda>r. (idx r, D r)) df) < length df \<and>
               D (df ! idxmax (map (\<lambda>r. (idx r, D r)) df)) \<and>
               (\<forall>j<idxmax (map (\<lambda>r. (idx r, D r)) df). \<not> D (df ! j))
          else idxmax (map (\<lambda>r. (idx r, D r)) df) = 0)"
proof (cases "find snd (map (\<lambda>r. (idx r, D r)) df)")
  case None
  then have no: "\<not> (\<exists>j<length df. D (df ! j))"
    by (auto simp: find_None_iff)
  from ne lab have "idx (hd df) = 0"
    by (cases df) auto
  with None ne have "idxmax (map (\<lambda>r. (idx r, D r)) df) = 0"
    by (simp add: idxmax_def hd_map)
  then show ?thesis unfolding if_not_P [OF no] .
next
  case (Some x)
  then obtain i where i: "i < length df" and Di: "D (df ! i)" and x: "x = (idx (df ! i), D (df ! i))"
    and first: "\<forall>j<i. \<not> D (df ! j)"
    by (auto simp: find_Some_iff)
  from Some x lab i have k: "idxmax (map (\<lambda>r. (idx r, D r)) df) = i"
    by (simp add: idxmax_def)
  from i Di have ex: "\<exists>j<length df. D (df ! j)" by blast
  show ?thesis
    unfolding k using ex i Di first by simp
qed

lemma below_one: "((if c then (1::int) else 0) < 1) = (\<not> c)"
  by simp

lemma detect_initial_read_csv:
  assumes ne: "samples \<noteq> []"
  shows "\<exists>k df1.
     detect_initial_stable_angular_position w (read_csv samples) period_s =
       (w\<lparr>stdout := stdout w @
            [InitialPositions (fst (snd (samples ! 0))) (snd (snd (samples ! 0))),
             FirstChange k (real k * period_s)]\<rparr>, Inr df1) \<and>
     (if \<exists>j<length samples. snd (samples ! j) \<noteq> snd (samples ! 0)
      then k < length samples \<and> snd (samples ! k) \<noteq> snd (samples ! 0) \<and>
           (\<forall>j<k. snd (samples ! j) = snd (samples ! 0))
      else k = 0) \<and>
     map capture_row.truncate df1 = read_csv samples"
proof -
  let ?df = "read_csv samples"
  let ?a0 = "fst (snd (samples ! 0))"
  let ?b0 = "snd (snd (samples ! 0))"
  let ?D = "\<lambda>r. \<not> (chan_a r = ?a0 \<and> chan_b r = ?b0)"
  let ?df1 = "map (\<lambda>r. capture_row.extend r
                       (origin_row.fields (if chan_a r = ?a0 \<and> chan_b r = ?b0 then 1 else 0))) ?df"
  let ?k = "idxmax (map (\<lambda>r. (idx r, ?D r)) ?df)"
  from ne have pos: "0 < length samples" by simp
  have dfne: "?df \<noteq> []" using ne by (cases samples) (auto simp: read_csv_def)
  have h: "idx (hd ?df) = 0" using ne by (rule read_csv_hd)
  have hd0: "hd ?df = ?df ! 0" using dfne by (simp add: hd_conv_nth)
  have a0: "chan_a (hd ?df) = ?a0" "chan_b (hd ?df) = ?b0"
    unfolding hd0 using pos by (simp_all add: read_csv_nth)
  have col: "map (\<lambda>r. (idx r, matches_initial_position r < 1)) ?df1 = map (\<lambda>r. (idx r, ?D r)) ?df"
    by (simp add: row_defs comp_def)
  have run: "detect_initial_stable_angular_position w ?df period_s =
       (w\<lparr>stdout := stdout w @ [InitialPositions ?a0 ?b0, FirstChange ?k (real ?k * period_s)]\<rparr>,
        Inr ?df1)"
    by (simp add: detect_initial_stable_angular_position_def at_0_hd [OF dfne h] Let_def a0
        comp_def row_defs below_one)
  have lab: "\<forall>i<length ?df. idx (?df ! i) = i"
    by (simp add: length_read_csv read_csv_nth)
  have D: "?D (?df ! j) \<longleftrightarrow> snd (samples ! j) \<noteq> snd (samples ! 0)" if "j < length samples" for j
    using that by (auto simp: read_csv_nth prod_eq_iff)
  from idxmax_first [OF dfne lab, of ?D]
  have k: "(if \<exists>j<length samples. ?D (?df ! j)
          then ?k < length samples \<and> ?D (?df ! ?k) \<and> (\<forall>j<?k. \<not> ?D (?df ! j))
          else ?k = 0)"
    by (simp only: length_read_csv)
  have k': "(if \<exists>j<length samples. snd (samples ! j) \<noteq> snd (samples ! 0)
      then ?k < length samples \<and> snd (samples ! ?k) \<noteq> snd (samples ! 0) \<and>
           (\<forall>j<?k. snd (samples ! j) = snd (samples ! 0))
      else ?k = 0)"
  proof (cases "\<exists>j<length samples. snd (samples ! j) \<noteq> snd (samples ! 0)")
    case True
    then have ex: "\<exists>j<length samples. ?D (?df ! j)" using D by blast
    from k have "?k < length samples \<and> ?D (?df ! ?k) \<and> (\<forall>j<?k. \<not> ?D (?df ! j))"
      unfolding if_P [OF ex] .
    then have kk: "?k < length samples" "?D (?df ! ?k)" "\<forall>j<?k. \<not> ?D (?df ! j)"
      by blast+
    have "snd (samples ! ?k) \<noteq> snd (samples ! 0)" using kk(1,2) D by blast
    moreover have "\<forall>j<?k. snd (samples ! j) = snd (samples ! 0)"
    proof (intro allI impI)
      fix j assume j: "j < ?k"
      with kk(1) have "j < length samples" by simp
      with kk(3) j D show "snd (samples ! j) = snd (samples ! 0)" by blast
    qed
    ultimately show ?thesis unfolding if_P [OF True] using kk(1) by blast
  next
    case False
    then have no: "\<not> (\<exists>j<length samples. ?D (?df ! j))" using D by blast
    from k have "?k = 0" unfolding if_not_P [OF no] .
    then show ?thesis unfolding if_not_P [OF False] .
  qed
  have tr: "map capture_row.truncate ?df1 = ?df"
    by (simp add: row_defs comp_def map_idI)
  from run k' tr show ?thesis by blast
qed

text \<open>What the detector prints and what it leaves: on a loaded capture that is not empty
  it does not raise, changes nothing of the world but the output, keeps the columns of
  the capture and adds the column \<open>matches_initial_position\<close>, which no later stage
  reads or changes.\<close>

lemma stable_origin_detector_read_only:
  assumes "samples \<noteq> []"
  shows "\<exists>k df1.
     detect_initial_stable_angular_position w (read_csv samples) period_s =
       (w\<lparr>stdout := stdout w @
            [InitialPositions (fst (snd (samples ! 0))) (snd (snd (samples ! 0))),
             FirstChange k (real k * period_s)]\<rparr>, Inr df1) \<and>
     (if \<exists>j<length samples. snd (samples ! j) \<noteq> snd (samples ! 0)
      then k < length samples \<and> snd (samples ! k) \<noteq> snd (samples ! 0) \<and>
           (\<forall>j<k. snd (samples ! j) = snd (samples ! 0))
      else k = 0) \<and>
     map capture_row.truncate df1 = read_csv samples \<and>
     (\<forall>f step v.
        annotate_from_origin step v (map (matches_initial_position_update f) df1) period_s =
        apsnd (map_sum id (map (matches_initial_position_update f)))
          (annotate_from_origin step v df1 period_s)) \<and>
     (\<forall>f df5.
        detect_angular_velocity
          (trim_redundant_data_points (map (matches_initial_position_update f) df5)) =
        map_sum id (map (matches_initial_position_update f))
          (detect_angular_velocity (trim_redundant_data_points df5)))"
proof -
  from detect_initial_read_csv [OF assms, of w period_s]
  obtain k df1 where
    "detect_initial_stable_angular_position w (read_csv samples) period_s =
       (w\<lparr>stdout := stdout w @
            [InitialPositions (fst (snd (samples ! 0))) (snd (snd (samples ! 0))),
             FirstChange k (real k * period_s)]\<rparr>, Inr df1)"
    "(if \<exists>j<length samples. snd (samples ! j) \<noteq> snd (samples ! 0)
      then k < length samples \<and> snd (samples ! k) \<noteq> snd (samples ! 0) \<and>
           (\<forall>j<k. snd (samples ! j) = snd (samples ! 0))
      else k = 0)"
    "map capture_row.truncate df1 = read_csv samples"
    by blast
  moreover have "\<forall>f step v.
        annotate_from_origin step v (map (matches_initial_position_update f) df1) period_s =
        apsnd (map_sum id (map (matches_initial_position_update f)))
          (annotate_from_origin step v df1 period_s)"
    by (simp add: annotate_from_origin_update)
  moreover have "\<forall>f df5.
        detect_angular_velocity
          (trim_redundant_data_points (map (matches_initial_position_update f) df5)) =
        map_sum id (map (matches_initial_position_update f))
          (detect_angular_velocity (trim_redundant_data_points df5))"
    by (simp add: trim_redundant_data_points_update detect_angular_velocity_update)
  ultimately show ?thesis by blast
qed


text \<open>
  Claim C9. On a loaded capture in which no sample differs from the initial reading, the
  detector has no result for "no motion": it prints the report of a first change in
  position, at index 0 and after 0 seconds, the same kind of report it prints for
  a capture that moves.
\<close>

theorem C9_no_motion_reported_as_change:
  assumes "samples \<noteq> []"
    and "\<forall>j<length samples. snd (samples ! j) = snd (samples ! 0)"
  shows "\<exists>df1. detect_initial_stable_angular_position w (read_csv samples) period_s =
       (w\<lparr>stdout := stdout w @
            [InitialPositions (fst (snd (samples ! 0))) (snd (snd (samples ! 0))),
             FirstChange 0 0]\<rparr>, Inr df1)"
proof -
  from detect_initial_read_csv [OF assms(1), of w period_s]
  obtain k df1 where run: "detect_initial_stable_angular_position w (read_csv samples) period_s =
       (w\<lparr>stdout := stdout w @
            [InitialPositions (fst (snd (samples ! 0))) (snd (snd (samples ! 0))),
             FirstChange k (real k * period_s)]\<rparr>, Inr df1)"
    and k: "(if \<exists>j<length samples. snd (samples ! j) \<noteq> snd (samples ! 0)
      then k < length samples \<and> snd (samples ! k) \<noteq> snd (samples ! 0) \<and>
           (\<forall>j<k. snd (samples ! j) = snd (samples ! 0))
      else k = 0)"
    by blast
  from assms(2) have no: "\<not> (\<exists>j<length samples. snd (samples ! j) \<noteq> snd (samples ! 0))"
    by blast
  from k have "k = 0" unfolding if_not_P [OF no] .
  with run show ?thesis by simp
qed

theorem C9_no_motion_reported_as_change_witness:
  "still_capture \<noteq> [] \<and> map snd still_capture = [(0, 0), (0, 0)] \<and>
   stdout (fst (detect_initial_stable_angular_position fresh_world (read_csv still_capture) 1)) =
     [InitialPositions 0 0, FirstChange 0 0]"
proof -
  have ne: "still_capture \<noteq> []" by (simp add: still_capture_def)
  have same: "\<forall>j<length still_capture. snd (still_capture ! j) = snd (still_capture ! 0)"
    by (simp add: still_capture_def All_less_Suc)
  have vals: "map snd still_capture = [(0, 0), (0, 0)]"
    by (simp add: still_capture_def)
  from C9_no_motion_reported_as_change [OF ne same, of fresh_world 1]
  obtain df1 where
    "detect_initial_stable_angular_position fresh_world (read_csv still_capture) 1 =
       (fresh_world\<lparr>stdout := stdout fresh_world @
            [InitialPositions (fst (snd (still_capture ! 0))) (snd (snd (still_capture ! 0))),
             FirstChange 0 0]\<rparr>, Inr df1)"
    by blast
  then have "stdout (fst (detect_initial_stable_angular_position fresh_world
       (read_csv still_capture) 1)) = [InitialPositions 0 0, FirstChange 0 0]"
    by (simp add: fresh_world_def still_capture_def)
  with ne vals show ?thesis by blast
qed

subsection \<open>The trimmer and the scenario of the specification\<close>

text \<open>
  Claim C1. On the scenario's capture, with step 90, the annotated frame has the change
  flags 0, 0, 1, 1, 1, 1. The trimmer keeps the rows whose flag is 0: the two
  samples with no code change (labels 0 and 1), and drops the four samples whose code
  changed.
\<close>

theorem C1_trim_keeps_unchanged_samples:
  "(case annotate (360 / 4) fresh_world (read_csv scenario) 1 of
      (w', Inr df) \<Rightarrow>
         map change_occurred df = [0, 0, 1, 1, 1, 1] \<and>
         map idx (trim_redundant_data_points df) = [0, 1] \<and>
         map change_occurred (trim_redundant_data_points df) = [0, 0] \<and>
         length (trim_redundant_data_points df) = 2 \<and>
         length (filter (\<lambda>r. change_occurred r \<noteq> 0) df) = 4
    | (w', Inl e) \<Rightarrow> False)"
  by code_simp

text \<open>
  Claim C4. On the scenario's capture, with resolution 4, the pipeline gives the codes
  00, 00, 01, 11, 10, 00, the directions UNCHANGED, UNCHANGED, CW, CW, CW, CW and the
  angles 0, 0, 90, 180, 270, 360; the frame it returns holds the rows labelled 0 and 1,
  with angles 0, 0 and velocities 0, 0.
\<close>

theorem C4_scenario_run:
  "(case annotate (360 / 4) fresh_world (read_csv scenario) 1 of
      (w', Inr df) \<Rightarrow>
         map current_position_bitmask df = [''00'', ''00'', ''01'', ''11'', ''10'', ''00''] \<and>
         map direction df = ['''', '''', ''CW'', ''CW'', ''CW'', ''CW''] \<and>
         map angle_deg df = [0, 0, 90, 180, 270, 360]
    | (w', Inl e) \<Rightarrow> False) \<and>
   (case pipeline (360 / 4) fresh_world (read_csv scenario) 1 of
      (w', Inr out) \<Rightarrow>
         map idx out = [0, 1] \<and> map angle_deg out = [0, 0] \<and>
         map velocity_deg_per_s out = [Finite 0, Finite 0]
    | (w', Inl e) \<Rightarrow> False)"
  by code_simp

end
